theory Spec2Isabelle
  imports Complex_Main "HOL-Library.Word"
begin

unbundle bit_operations_syntax

section \<open>Bit patterns\<close>

text \<open>
  \<open>asuint\<close>, \<open>asfloat\<close>, \<open>asuint64\<close> and \<open>asdouble\<close> reinterpret bits and change nothing:
  a \<open>float\<close> is modelled by its 32-bit pattern and a \<open>double\<close> by its 64-bit pattern, so
  the four casts are the identity. \<open>double_t\<close> and \<open>float_t\<close> are taken to be \<open>double\<close> and
  \<open>float\<close> (\<open>FLT_EVAL_METHOD == 0\<close>), products and sums are not contracted, and the
  rounding mode is round-to-nearest, ties to even.
\<close>

type_synonym u32 = "32 word"
type_synonym u64 = "64 word"

section \<open>IEEE-754 arithmetic on bit patterns\<close>

text \<open>
  A format is given by the width \<open>ew\<close> of its exponent field and the width \<open>fw\<close> of its
  fraction field; a bit pattern is read as a natural number. \<open>Finite s m x\<close> stands for
  \<open>(-1)^s * m * 2^x\<close>; the sign \<open>True\<close> is the negative one.
\<close>

datatype fpval = Nan | Infty bool | Finite bool nat int

datatype fpexact = XNan | XInf bool | XZero bool | XNum bool nat nat

definition fp_bias :: "nat \<Rightarrow> nat" where
  "fp_bias ew = 2 ^ (ew - 1) - 1"

definition fp_sign :: "nat \<Rightarrow> nat \<Rightarrow> nat \<Rightarrow> bool" where
  "fp_sign ew fw b = odd (b div 2 ^ (ew + fw))"

definition fp_expo :: "nat \<Rightarrow> nat \<Rightarrow> nat \<Rightarrow> nat" where
  "fp_expo ew fw b = b div 2 ^ fw mod 2 ^ ew"

definition fp_frac :: "nat \<Rightarrow> nat \<Rightarrow> nat" where
  "fp_frac fw b = b mod 2 ^ fw"

definition fp_decode :: "nat \<Rightarrow> nat \<Rightarrow> nat \<Rightarrow> fpval" where
  "fp_decode ew fw b =
     (let s = fp_sign ew fw b; e = fp_expo ew fw b; f = fp_frac fw b in
      if e = 2 ^ ew - 1 then (if f = 0 then Infty s else Nan)
      else if e = 0 then Finite s f (1 - int (fp_bias ew) - int fw)
      else Finite s (2 ^ fw + f) (int e - int (fp_bias ew) - int fw))"

definition fp_inf_mag :: "nat \<Rightarrow> nat \<Rightarrow> nat" where
  "fp_inf_mag ew fw = (2 ^ ew - 1) * 2 ^ fw"

definition fp_pack :: "nat \<Rightarrow> nat \<Rightarrow> bool \<Rightarrow> nat \<Rightarrow> nat" where
  "fp_pack ew fw s mag = (if s then 2 ^ (ew + fw) else 0) + mag"

text \<open>The number of binary digits of a natural number.\<close>

fun blen :: "nat \<Rightarrow> nat" where
  "blen n = (if n = 0 then 0 else Suc (blen (n div 2)))"

declare blen.simps [simp del]

text \<open>\<open>a / b\<close> rounded to the nearest integer, ties to the even one.\<close>

definition rne_div :: "nat \<Rightarrow> nat \<Rightarrow> nat" where
  "rne_div a b =
     (let q = a div b; r = a mod b in
      if 2 * r < b then q else if b < 2 * r then q + 1
      else if even q then q else q + 1)"

text \<open>The floor of the binary logarithm of \<open>a / b\<close>, for positive \<open>a\<close> and \<open>b\<close>.\<close>

definition ilog2_frac :: "nat \<Rightarrow> nat \<Rightarrow> int" where
  "ilog2_frac a b =
     (let l = int (blen a) - int (blen b) in
      if b * 2 ^ nat l \<le> a * 2 ^ nat (- l) then l else l - 1)"

text \<open>
  The magnitude bits (exponent and fraction fields) of the value of the format nearest to
  the positive rational \<open>a / b\<close>: the quotient is scaled by the unit in the last place of
  its binade (of the subnormal binade when it is below the normal range), rounded to an
  integer, and added to the exponent field, so that a carry out of the fraction moves the
  value into the next binade; what reaches the last exponent is infinity.
\<close>

definition fp_round_mag :: "nat \<Rightarrow> nat \<Rightarrow> nat \<Rightarrow> nat \<Rightarrow> nat" where
  "fp_round_mag ew fw a b =
     (let emin = 1 - int (fp_bias ew);
          e = max (ilog2_frac a b) emin;
          sh = e - int fw;
          n = rne_div (a * 2 ^ nat (- sh)) (b * 2 ^ nat sh);
          mag = nat (e - emin) * 2 ^ fw + n
      in if a = 0 then 0 else min mag (fp_inf_mag ew fw))"

definition fp_finish :: "nat \<Rightarrow> nat \<Rightarrow> fpexact \<Rightarrow> nat" where
  "fp_finish ew fw r =
     (case r of
        XNan \<Rightarrow> fp_inf_mag ew fw + 2 ^ (fw - 1)
      | XInf s \<Rightarrow> fp_pack ew fw s (fp_inf_mag ew fw)
      | XZero s \<Rightarrow> fp_pack ew fw s 0
      | XNum s a b \<Rightarrow> fp_pack ew fw s (fp_round_mag ew fw a b))"

text \<open>The exact value \<open>m * 2^x\<close> as a fraction of two natural numbers.\<close>

definition dy_num :: "nat \<Rightarrow> int \<Rightarrow> nat" where
  "dy_num m x = m * 2 ^ nat x"

definition dy_den :: "int \<Rightarrow> nat" where
  "dy_den x = 2 ^ nat (- x)"

fun neg_val :: "fpval \<Rightarrow> fpval" where
  "neg_val Nan = Nan"
| "neg_val (Infty s) = Infty (\<not> s)"
| "neg_val (Finite s m x) = Finite (\<not> s) m x"

fun mul_exact :: "fpval \<Rightarrow> fpval \<Rightarrow> fpexact" where
  "mul_exact Nan v = XNan"
| "mul_exact (Infty s) Nan = XNan"
| "mul_exact (Finite s m x) Nan = XNan"
| "mul_exact (Infty s) (Infty t) = XInf (s \<noteq> t)"
| "mul_exact (Infty s) (Finite t n y) = (if n = 0 then XNan else XInf (s \<noteq> t))"
| "mul_exact (Finite s m x) (Infty t) = (if m = 0 then XNan else XInf (s \<noteq> t))"
| "mul_exact (Finite s m x) (Finite t n y) =
     (if m * n = 0 then XZero (s \<noteq> t)
      else XNum (s \<noteq> t) (dy_num (m * n) (x + y)) (dy_den (x + y)))"

fun add_exact :: "fpval \<Rightarrow> fpval \<Rightarrow> fpexact" where
  "add_exact Nan v = XNan"
| "add_exact (Infty s) Nan = XNan"
| "add_exact (Finite s m x) Nan = XNan"
| "add_exact (Infty s) (Infty t) = (if s = t then XInf s else XNan)"
| "add_exact (Infty s) (Finite t n y) = XInf s"
| "add_exact (Finite s m x) (Infty t) = XInf t"
| "add_exact (Finite s m x) (Finite t n y) =
     (if m = 0 \<and> n = 0 then XZero (s \<and> t)
      else
        let z = min x y;
            v = (if s then - 1 else 1) * int m * 2 ^ nat (x - z)
              + (if t then - 1 else 1) * int n * 2 ^ nat (y - z)
        in if v = 0 then XZero False
           else XNum (v < 0) (dy_num (nat \<bar>v\<bar>) z) (dy_den z))"

fun div_exact :: "fpval \<Rightarrow> fpval \<Rightarrow> fpexact" where
  "div_exact Nan v = XNan"
| "div_exact (Infty s) Nan = XNan"
| "div_exact (Finite s m x) Nan = XNan"
| "div_exact (Infty s) (Infty t) = XNan"
| "div_exact (Infty s) (Finite t n y) = XInf (s \<noteq> t)"
| "div_exact (Finite s m x) (Infty t) = XZero (s \<noteq> t)"
| "div_exact (Finite s m x) (Finite t n y) =
     (if n = 0 then (if m = 0 then XNan else XInf (s \<noteq> t))
      else if m = 0 then XZero (s \<noteq> t)
      else XNum (s \<noteq> t) (m * 2 ^ nat (x - y)) (n * 2 ^ nat (y - x)))"

text \<open>Comparison of two values; every comparison with a NaN is false.\<close>

fun scaled :: "bool \<Rightarrow> nat \<Rightarrow> int \<Rightarrow> int \<Rightarrow> int" where
  "scaled s m x z = (if s then - 1 else 1) * int m * 2 ^ nat (x - z)"

fun less_val :: "fpval \<Rightarrow> fpval \<Rightarrow> bool" where
  "less_val Nan v = False"
| "less_val (Infty s) Nan = False"
| "less_val (Finite s m x) Nan = False"
| "less_val (Infty s) (Infty t) = (s \<and> \<not> t)"
| "less_val (Infty s) (Finite t n y) = s"
| "less_val (Finite s m x) (Infty t) = (\<not> t)"
| "less_val (Finite s m x) (Finite t n y) =
     (scaled s m x (min x y) < scaled t n y (min x y))"

fun eq_val :: "fpval \<Rightarrow> fpval \<Rightarrow> bool" where
  "eq_val Nan v = False"
| "eq_val (Infty s) Nan = False"
| "eq_val (Finite s m x) Nan = False"
| "eq_val (Infty s) (Infty t) = (s = t)"
| "eq_val (Infty s) (Finite t n y) = False"
| "eq_val (Finite s m x) (Infty t) = False"
| "eq_val (Finite s m x) (Finite t n y) =
     (scaled s m x (min x y) = scaled t n y (min x y))"

text \<open>The real number a finite value stands for (0 for the others).\<close>

fun real_of_val :: "fpval \<Rightarrow> real" where
  "real_of_val (Finite s m x) = (if s then - 1 else 1) * real m * 2 powi x"
| "real_of_val (Infty s) = 0"
| "real_of_val Nan = 0"

fun is_fin :: "fpval \<Rightarrow> bool" where
  "is_fin (Finite s m x) = True"
| "is_fin (Infty s) = False"
| "is_fin Nan = False"

fun is_zero :: "fpval \<Rightarrow> bool" where
  "is_zero (Finite s m x) = (m = 0)"
| "is_zero (Infty s) = False"
| "is_zero Nan = False"

fun is_inf :: "fpval \<Rightarrow> bool" where
  "is_inf (Infty s) = True"
| "is_inf (Finite s m x) = False"
| "is_inf Nan = False"

fun sign_val :: "fpval \<Rightarrow> bool" where
  "sign_val (Finite s m x) = s"
| "sign_val (Infty s) = s"
| "sign_val Nan = False"

subsection \<open>binary32\<close>

definition decode32 :: "u32 \<Rightarrow> fpval" where
  "decode32 a = fp_decode 8 23 (unat a)"

definition valof32 :: "u32 \<Rightarrow> real" where
  "valof32 a = real_of_val (decode32 a)"

definition is_nan32 :: "u32 \<Rightarrow> bool" where
  "is_nan32 a \<longleftrightarrow> decode32 a = Nan"

definition quiet32 :: "u32 \<Rightarrow> u32" where
  "quiet32 a = a OR 0x00400000"

definition binop32 :: "(fpval \<Rightarrow> fpval \<Rightarrow> fpexact) \<Rightarrow> u32 \<Rightarrow> u32 \<Rightarrow> u32" where
  "binop32 f a b =
     (if is_nan32 a then quiet32 a else if is_nan32 b then quiet32 b
      else word_of_nat (fp_finish 8 23 (f (decode32 a) (decode32 b))))"

text \<open>
  An operand that is a NaN comes back quieted (the first one when both are), and an
  invalid operation gives the default NaN. A zero added to a value that is not a zero
  leaves that value as it is.
\<close>

definition fadd32 :: "u32 \<Rightarrow> u32 \<Rightarrow> u32" where
  "fadd32 a b =
     (if is_zero (decode32 a) \<and> \<not> is_zero (decode32 b) \<and> \<not> is_nan32 b then b
      else if is_zero (decode32 b) \<and> \<not> is_zero (decode32 a) \<and> \<not> is_nan32 a then a
      else binop32 add_exact a b)"

definition fmul32 :: "u32 \<Rightarrow> u32 \<Rightarrow> u32" where
  "fmul32 a b = binop32 mul_exact a b"

definition fdiv32 :: "u32 \<Rightarrow> u32 \<Rightarrow> u32" where
  "fdiv32 a b = binop32 div_exact a b"

definition fneg32 :: "u32 \<Rightarrow> u32" where
  "fneg32 a = a XOR 0x80000000"

subsection \<open>binary64\<close>

definition decode64 :: "u64 \<Rightarrow> fpval" where
  "decode64 a = fp_decode 11 52 (unat a)"

definition valof64 :: "u64 \<Rightarrow> real" where
  "valof64 a = real_of_val (decode64 a)"

definition is_nan64 :: "u64 \<Rightarrow> bool" where
  "is_nan64 a \<longleftrightarrow> decode64 a = Nan"

definition quiet64 :: "u64 \<Rightarrow> u64" where
  "quiet64 a = a OR 0x0008000000000000"

definition binop64 :: "(fpval \<Rightarrow> fpval \<Rightarrow> fpexact) \<Rightarrow> u64 \<Rightarrow> u64 \<Rightarrow> u64" where
  "binop64 f a b =
     (if is_nan64 a then quiet64 a else if is_nan64 b then quiet64 b
      else word_of_nat (fp_finish 11 52 (f (decode64 a) (decode64 b))))"

definition fadd64 :: "u64 \<Rightarrow> u64 \<Rightarrow> u64" where
  "fadd64 a b =
     (if is_zero (decode64 a) \<and> \<not> is_zero (decode64 b) \<and> \<not> is_nan64 b then b
      else if is_zero (decode64 b) \<and> \<not> is_zero (decode64 a) \<and> \<not> is_nan64 a then a
      else binop64 add_exact a b)"

definition fsub64 :: "u64 \<Rightarrow> u64 \<Rightarrow> u64" where
  "fsub64 a b =
     (if is_zero (decode64 b) \<and> \<not> is_zero (decode64 a) \<and> \<not> is_nan64 a then a
      else binop64 (\<lambda>u v. add_exact u (neg_val v)) a b)"

definition fmul64 :: "u64 \<Rightarrow> u64 \<Rightarrow> u64" where
  "fmul64 a b = binop64 mul_exact a b"

definition fgt64 :: "u64 \<Rightarrow> u64 \<Rightarrow> bool" where
  "fgt64 a b \<longleftrightarrow> less_val (decode64 b) (decode64 a)"

definition flt64 :: "u64 \<Rightarrow> u64 \<Rightarrow> bool" where
  "flt64 a b \<longleftrightarrow> less_val (decode64 a) (decode64 b)"

definition fle64 :: "u64 \<Rightarrow> u64 \<Rightarrow> bool" where
  "fle64 a b \<longleftrightarrow> less_val (decode64 a) (decode64 b) \<or> eq_val (decode64 a) (decode64 b)"

subsection \<open>Conversions\<close>

text \<open>
  \<open>(double) f\<close> is exact: a normal number keeps its fraction and has its exponent
  rebiased, a subnormal one is normalised, a NaN keeps its sign and payload and is quieted.
\<close>

definition f32_to_f64 :: "u32 \<Rightarrow> u64" where
  "f32_to_f64 a =
     (let n = unat a; s = fp_sign 8 23 n; e = fp_expo 8 23 n; f = fp_frac 23 n in
      word_of_nat (fp_pack 11 52 s
        (if e = 255 then (if f = 0 then fp_inf_mag 11 52
            else fp_inf_mag 11 52 + 2 ^ 51 + (f mod 2 ^ 22) * 2 ^ 29)
         else if e = 0 then
           (if f = 0 then 0 else (blen f + 873) * 2 ^ 52 + (f * 2 ^ (53 - blen f) - 2 ^ 52))
         else (e + 896) * 2 ^ 52 + f * 2 ^ 29)))"

text \<open>\<open>(float) d\<close> rounds to binary32.\<close>

definition f64_to_f32 :: "u64 \<Rightarrow> u32" where
  "f64_to_f32 a =
     (case decode64 a of
        Nan \<Rightarrow> word_of_nat (fp_pack 8 23 (fp_sign 11 52 (unat a))
                 (fp_inf_mag 8 23 + 2 ^ 22 + fp_frac 52 (unat a) div 2 ^ 29 mod 2 ^ 22))
      | Infty s \<Rightarrow> word_of_nat (fp_finish 8 23 (XInf s))
      | Finite s m x \<Rightarrow>
          word_of_nat (fp_finish 8 23
            (if m = 0 then XZero s else XNum s (dy_num m x) (dy_den x))))"

text \<open>\<open>(double) k\<close> for an \<open>int\<close> \<open>k\<close>: every 32-bit integer is a double.\<close>

definition i32_to_f64 :: "int \<Rightarrow> u64" where
  "i32_to_f64 k =
     word_of_nat (fp_finish 11 52 (if k = 0 then XZero False else XNum (k < 0) (nat \<bar>k\<bar>) 1))"

section \<open>Configuration and tables\<close>

text \<open>
  The macros of \<open>math_config.h\<close> and the tables \<open>__powf_log2_data\<close> and \<open>__exp2f_data\<close> are
  parameters of the model: the build flags, the size of the log2 table, the tables and
  polynomials themselves, the two rounding primitives of the \<open>TOINT_INTRINSICS\<close> build
  and the helper \<open>__math_may_uflowf\<close>.
\<close>

record log2_entry =
  invc :: u64
  logc :: u64

record config =
  TOINT_INTRINSICS :: bool
  WANT_ERRNO :: bool
  WANT_ERRNO_UFLOW :: bool
  POWF_LOG2_TABLE_BITS :: nat
  powf_log2_tab :: "log2_entry list"
  powf_log2_poly :: "u64 list"
  exp2f_tab :: "u64 list"
  exp2f_poly :: "u64 list"
  exp2f_poly_scaled :: "u64 list"
  exp2f_shift_scaled :: u64
  roundtoint :: "u64 \<Rightarrow> u64"
  converttoint :: "u64 \<Rightarrow> u64"
  math_may_uflowf :: "u64 \<Rightarrow> u32"

text \<open>\<open>EXP2F_TABLE_BITS = 5\<close>, as the comment at the head of the file records.\<close>

definition EXP2F_TABLE_BITS :: nat where
  "EXP2F_TABLE_BITS = 5"

text \<open>
  \<open>POWF_SCALE_BITS\<close> is \<open>EXP2F_TABLE_BITS\<close> when \<open>TOINT_INTRINSICS\<close> is set and 0 otherwise
  (``Output is multiplied by N (POWF_SCALE) if TOINT_INTRINICS is set''), and
  \<open>POWF_SCALE\<close> is \<open>(double) (1 << POWF_SCALE_BITS)\<close>.
\<close>

definition POWF_SCALE_BITS :: "config \<Rightarrow> nat" where
  "POWF_SCALE_BITS cfg = (if TOINT_INTRINSICS cfg then EXP2F_TABLE_BITS else 0)"

definition POWF_SCALE :: "config \<Rightarrow> u64" where
  "POWF_SCALE cfg = i32_to_f64 (2 ^ POWF_SCALE_BITS cfg)"

definition OFF :: u32 where
  "OFF = 0x3f330000"

definition SIGN_BIAS :: u64 where
  "SIGN_BIAS = push_bit (EXP2F_TABLE_BITS + 11) 1"

section \<open>Error helpers\<close>

datatype math_err = No_error | Err_invalid | Err_divzero | Err_overflow | Err_underflow
  | Err_may_underflow

type_synonym result = "u32 \<times> math_err"

text \<open>
  Modelled from the spec: \<open>issignalingf_inline\<close> of \<open>math_config.h\<close>, which is not among
  the sources. A signaling NaN is a NaN that is not quiet: its quiet bit is clear.
\<close>

definition issignalingf_inline :: "u32 \<Rightarrow> bool" where
  "issignalingf_inline x \<longleftrightarrow> is_nan32 x \<and> x AND 0x00400000 = 0"

text \<open>
  Modelled from the spec: \<open>__math_invalidf\<close>, \<open>__math_divzerof\<close>, \<open>__math_oflowf\<close> and
  \<open>__math_uflowf\<close> of \<open>math_errf.c\<close>, which is not among the sources. An invalid-domain
  result is a quiet NaN, a pole a signed infinity, an overflow a correctly-signed infinity
  and an underflow a correctly-signed zero; the sign is negative when the argument is not 0.
\<close>

definition math_invalidf :: "u32 \<Rightarrow> result" where
  "math_invalidf x = (0x7fc00000, Err_invalid)"

definition math_divzerof :: "u64 \<Rightarrow> result" where
  "math_divzerof sign = (if sign \<noteq> 0 then 0xff800000 else 0x7f800000, Err_divzero)"

definition math_oflowf :: "u64 \<Rightarrow> result" where
  "math_oflowf sign = (if sign \<noteq> 0 then 0xff800000 else 0x7f800000, Err_overflow)"

definition math_uflowf :: "u64 \<Rightarrow> result" where
  "math_uflowf sign = (if sign \<noteq> 0 then 0x80000000 else 0, Err_underflow)"

section \<open>The kernels\<close>

definition log2_inline :: "config \<Rightarrow> u32 \<Rightarrow> u64" where
  "log2_inline cfg ix =
     (let A = powf_log2_poly cfg;
          tmp = ix - OFF;
          i = unat (drop_bit (23 - POWF_LOG2_TABLE_BITS cfg) tmp
                mod push_bit (POWF_LOG2_TABLE_BITS cfg) 1);
          top = tmp AND 0xff800000;
          iz = ix - top;
          k = sint (signed_drop_bit (23 - POWF_SCALE_BITS cfg) top);
          invc_i = invc (powf_log2_tab cfg ! i);
          logc_i = logc (powf_log2_tab cfg ! i);
          z = f32_to_f64 iz;
          r = fsub64 (fmul64 z invc_i) 0x3ff0000000000000;
          y0 = fadd64 logc_i (i32_to_f64 k);
          r2 = fmul64 r r;
          y = fadd64 (fmul64 (A ! 0) r) (A ! 1);
          p = fadd64 (fmul64 (A ! 2) r) (A ! 3);
          r4 = fmul64 r2 r2;
          q = fadd64 (fmul64 (A ! 4) r) y0;
          q = fadd64 (fmul64 p r2) q;
          y = fadd64 (fmul64 y r4) q
      in y)"

definition exp2_inline :: "config \<Rightarrow> u64 \<Rightarrow> u64 \<Rightarrow> u64" where
  "exp2_inline cfg xd sign_bias =
     (let C = (if TOINT_INTRINSICS cfg then exp2f_poly_scaled cfg else exp2f_poly cfg);
          SHIFT = exp2f_shift_scaled cfg;
          kd0 = (if TOINT_INTRINSICS cfg then roundtoint cfg xd else fadd64 xd SHIFT);
          ki = (if TOINT_INTRINSICS cfg then converttoint cfg xd else kd0);
          kd = (if TOINT_INTRINSICS cfg then kd0 else fsub64 kd0 SHIFT);
          r = fsub64 xd kd;
          t = exp2f_tab cfg ! unat (ki mod push_bit EXP2F_TABLE_BITS 1);
          ski = ki + sign_bias;
          t = t + push_bit (52 - EXP2F_TABLE_BITS) ski;
          s = t;
          z = fadd64 (fmul64 (C ! 0) r) (C ! 1);
          r2 = fmul64 r r;
          y = fadd64 (fmul64 (C ! 2) r) 0x3ff0000000000000;
          y = fadd64 (fmul64 z r2) y;
          y = fmul64 y s
      in y)"

text \<open>
  The two factors of the product of line 122. \<open>exp2_scale\<close> is \<open>s\<close>: the table entry for
  \<open>ki % N\<close> plus \<open>ski << (52 - EXP2F_TABLE_BITS)\<close> with \<open>ski = ki + sign_bias\<close> (lines 98 to 117,
  as far as they lead to \<open>t\<close>). \<open>exp2_poly\<close> is \<open>y\<close> before the product: the polynomial in
  \<open>r = xd - kd\<close> (lines 98 to 121, as far as they lead to \<open>y\<close>); the sign bias takes no part in
  it.
\<close>

definition exp2_scale :: "config \<Rightarrow> u64 \<Rightarrow> u64 \<Rightarrow> u64" where
  "exp2_scale cfg xd sign_bias =
     (let SHIFT = exp2f_shift_scaled cfg;
          kd0 = (if TOINT_INTRINSICS cfg then roundtoint cfg xd else fadd64 xd SHIFT);
          ki = (if TOINT_INTRINSICS cfg then converttoint cfg xd else kd0);
          t = exp2f_tab cfg ! unat (ki mod push_bit EXP2F_TABLE_BITS 1);
          ski = ki + sign_bias;
          t = t + push_bit (52 - EXP2F_TABLE_BITS) ski
      in t)"

definition exp2_poly :: "config \<Rightarrow> u64 \<Rightarrow> u64" where
  "exp2_poly cfg xd =
     (let C = (if TOINT_INTRINSICS cfg then exp2f_poly_scaled cfg else exp2f_poly cfg);
          SHIFT = exp2f_shift_scaled cfg;
          kd0 = (if TOINT_INTRINSICS cfg then roundtoint cfg xd else fadd64 xd SHIFT);
          kd = (if TOINT_INTRINSICS cfg then kd0 else fsub64 kd0 SHIFT);
          r = fsub64 xd kd;
          z = fadd64 (fmul64 (C ! 0) r) (C ! 1);
          r2 = fmul64 r r;
          y = fadd64 (fmul64 (C ! 2) r) 0x3ff0000000000000;
          y = fadd64 (fmul64 z r2) y
      in y)"

section \<open>Classification helpers\<close>

definition checkint :: "u32 \<Rightarrow> int" where
  "checkint iy =
     (let e = unat (drop_bit 23 iy AND 0xff) in
      if e < 0x7f then 0
      else if e > 0x7f + 23 then 2
      else if iy AND (push_bit (0x7f + 23 - e) 1 - 1) \<noteq> 0 then 0
      else if iy AND push_bit (0x7f + 23 - e) 1 \<noteq> 0 then 1
      else 2)"

definition zeroinfnan :: "u32 \<Rightarrow> bool" where
  "zeroinfnan ix \<longleftrightarrow> 2 * ix - 1 \<ge> 2 * 0x7f800000 - 1"

section \<open>The dispatcher\<close>

text \<open>Lines 163 to 173: \<open>y\<close> is a zero, an infinity or a NaN.\<close>

definition powf_y_special :: "u32 \<Rightarrow> u32 \<Rightarrow> result" where
  "powf_y_special x y =
     (let ix = x; iy = y in
      if 2 * iy = 0 then (if issignalingf_inline x then fadd32 x y else 0x3f800000, No_error)
      else if ix = 0x3f800000 then
        (if issignalingf_inline y then fadd32 x y else 0x3f800000, No_error)
      else if 2 * ix > 2 * 0x7f800000 \<or> 2 * iy > 2 * 0x7f800000 then (fadd32 x y, No_error)
      else if 2 * ix = 2 * 0x3f800000 then (0x3f800000, No_error)
      else if (2 * ix < 2 * 0x3f800000) = (iy AND 0x80000000 = 0) then (0, No_error)
      else (fmul32 y y, No_error))"

text \<open>Lines 177 to 187: \<open>x\<close> is a zero, an infinity or a NaN and \<open>y\<close> is finite and not 0.\<close>

definition powf_x_special :: "config \<Rightarrow> u32 \<Rightarrow> u32 \<Rightarrow> result" where
  "powf_x_special cfg x y =
     (let ix = x; iy = y;
          x2 = fmul32 x x;
          odd_neg = (ix AND 0x80000000 \<noteq> 0 \<and> checkint iy = 1);
          x2 = (if odd_neg then fneg32 x2 else x2);
          sign_bias = (if odd_neg then 1 else 0)
      in if WANT_ERRNO cfg \<and> 2 * ix = 0 \<and> iy AND 0x80000000 \<noteq> 0 then math_divzerof sign_bias
         else (if iy AND 0x80000000 \<noteq> 0 then fdiv32 0x3f800000 x2 else x2, No_error))"

text \<open>The fast test of line 210 on the exponent field of \<open>ylogx\<close>.\<close>

definition powf_big :: "config \<Rightarrow> u64 \<Rightarrow> bool" where
  "powf_big cfg ylogx \<longleftrightarrow>
     drop_bit 47 ylogx AND 0xffff \<ge> drop_bit 47 (fmul64 0x405f800000000000 (POWF_SCALE cfg))"

text \<open>Lines 208 to 224, for the normalised \<open>ix\<close> and the \<open>sign_bias\<close> found before.\<close>

definition powf_common :: "config \<Rightarrow> u32 \<Rightarrow> u64 \<Rightarrow> u32 \<Rightarrow> result" where
  "powf_common cfg y sign_bias ix =
     (let logx = log2_inline cfg ix;
          ylogx = fmul64 (f32_to_f64 y) logx
      in if powf_big cfg ylogx then
           (if fgt64 ylogx (fmul64 0x405fffffffd1d571 (POWF_SCALE cfg))
              then math_oflowf sign_bias
            else if fle64 ylogx (fmul64 0xc062c00000000000 (POWF_SCALE cfg))
              then math_uflowf sign_bias
            else if WANT_ERRNO_UFLOW cfg
                \<and> flt64 ylogx (fmul64 0xc062a00000000000 (POWF_SCALE cfg))
              then (math_may_uflowf cfg sign_bias, Err_may_underflow)
            else (f64_to_f32 (exp2_inline cfg ylogx sign_bias), No_error))
         else (f64_to_f32 (exp2_inline cfg ylogx sign_bias), No_error))"

text \<open>Lines 200 to 206: a subnormal \<open>x\<close> is scaled by \<open>2^23\<close>.\<close>

definition powf_normalize :: "u32 \<Rightarrow> u32 \<Rightarrow> u32" where
  "powf_normalize x ix =
     (if ix < 0x00800000 then (fmul32 x 0x4b000000 AND 0x7fffffff) - push_bit 23 23 else ix)"

definition ARM__powf :: "config \<Rightarrow> u32 \<Rightarrow> u32 \<Rightarrow> result" where
  "ARM__powf cfg x y =
     (let ix = x; iy = y in
      if ix - 0x00800000 \<ge> 0x7f800000 - 0x00800000 \<or> zeroinfnan iy then
        (if zeroinfnan iy then powf_y_special x y
         else if zeroinfnan ix then powf_x_special cfg x y
         else if ix AND 0x80000000 \<noteq> 0 then
           (let yint = checkint iy in
            if yint = 0 then math_invalidf x
            else powf_common cfg y (if yint = 1 then SIGN_BIAS else 0)
                   (powf_normalize x (ix AND 0x7fffffff)))
         else powf_common cfg y 0 (powf_normalize x ix))
      else powf_common cfg y 0 ix)"

section \<open>What the theorems need of the tables\<close>

text \<open>
  The tables are not among the sources. For a base that is a power of two the reduced
  argument \<open>z\<close> is 1, and the results below hold for every log2 table of 16 entries in
  which the subinterval that holds 1 (the one with index 9) has its centre at 1, that is
  \<open>invc = 1\<close> and \<open>logc = +0\<close>, and whose polynomial coefficients are finite.
\<close>

definition log2_table_centred :: "config \<Rightarrow> bool" where
  "log2_table_centred cfg \<longleftrightarrow>
     POWF_LOG2_TABLE_BITS cfg = 4
     \<and> invc (powf_log2_tab cfg ! 9) = 0x3ff0000000000000
     \<and> logc (powf_log2_tab cfg ! 9) = 0
     \<and> is_fin (decode64 (powf_log2_poly cfg ! 0))
     \<and> is_fin (decode64 (powf_log2_poly cfg ! 1))
     \<and> is_fin (decode64 (powf_log2_poly cfg ! 2))
     \<and> is_fin (decode64 (powf_log2_poly cfg ! 3))
     \<and> is_fin (decode64 (powf_log2_poly cfg ! 4))"

text \<open>
  For an argument of \<open>exp2_inline\<close> that is a zero, \<open>k\<close> is 0 and \<open>r\<close> is a zero, and the
  results below hold for every exp2 table whose entry 0 is the pattern of \<open>2^0 = 1.0\<close> and
  whose polynomial coefficients are finite. Without \<open>TOINT_INTRINSICS\<close> the shift is
  \<open>0x1.8p+52 / N\<close>, the constant that leaves \<open>k\<close> in the low bits of the sum; with it,
  \<open>roundtoint\<close> of a zero is a zero and \<open>converttoint\<close> of a zero is 0.
\<close>

definition exp2_table_centred :: "config \<Rightarrow> bool" where
  "exp2_table_centred cfg \<longleftrightarrow>
     exp2f_tab cfg ! 0 = 0x3ff0000000000000
     \<and> (if TOINT_INTRINSICS cfg
        then is_zero (decode64 (roundtoint cfg 0))
           \<and> is_zero (decode64 (roundtoint cfg 0x8000000000000000))
           \<and> converttoint cfg 0 = 0
           \<and> converttoint cfg 0x8000000000000000 = 0
           \<and> is_fin (decode64 (exp2f_poly_scaled cfg ! 0))
           \<and> is_fin (decode64 (exp2f_poly_scaled cfg ! 1))
           \<and> is_fin (decode64 (exp2f_poly_scaled cfg ! 2))
        else exp2f_shift_scaled cfg = 0x42e8000000000000
           \<and> is_fin (decode64 (exp2f_poly cfg ! 0))
           \<and> is_fin (decode64 (exp2f_poly cfg ! 1))
           \<and> is_fin (decode64 (exp2f_poly cfg ! 2)))"

section \<open>A configuration for instantiating the theorems\<close>

text \<open>
  The default build (no \<open>TOINT_INTRINSICS\<close>, no \<open>WANT_ERRNO\<close>), with synthetic tables: every
  entry of the log2 table is the centre 1 (\<open>invc = 1\<close>, \<open>logc = 0\<close>), every entry of the exp2
  table is the pattern of \<open>2^0\<close>, the shift is \<open>0x1.8p+52 / 32\<close>, and the coefficients are some
  finite doubles. It only serves to show that the hypotheses of the theorems can be met.
\<close>

definition sample_config :: config where
  "sample_config =
     \<lparr>TOINT_INTRINSICS = False, WANT_ERRNO = False, WANT_ERRNO_UFLOW = False,
      POWF_LOG2_TABLE_BITS = 4,
      powf_log2_tab = replicate 16 \<lparr>invc = 0x3ff0000000000000, logc = 0\<rparr>,
      powf_log2_poly = [0x3fd27616c9496e0b, 0xbfd71969a075c67a, 0x3fdec70a6ca7badd,
        0xbfe7154748bef6c8, 0x3ff71547652ab82b],
      exp2f_tab = replicate 32 0x3ff0000000000000,
      exp2f_poly = [0x3fac6af84b912394, 0x3fcebfce50fac4f3, 0x3fe62e42ff0c52d6],
      exp2f_poly_scaled = [0x3ebc6af84b912394, 0x3f2ebfce50fac4f3, 0x3f962e42ff0c52d6],
      exp2f_shift_scaled = 0x42e8000000000000,
      roundtoint = (\<lambda>x. x), converttoint = (\<lambda>x. 0), math_may_uflowf = (\<lambda>s. 0)\<rparr>"

section \<open>Words as natural numbers\<close>

lemma unat_expfield: "unat (drop_bit 23 (ix::u32) AND 0xff) = (unat ix div 8388608) mod 256"
proof -
  have a: "(0xff::u32) = mask 8" by (simp add: mask_eq_exp_minus_1)
  show ?thesis unfolding a
    by (simp add: unsigned_and_eq unsigned_drop_bit_eq drop_bit_eq_div take_bit_eq_mod
        unat_div unat_mod flip: take_bit_eq_mask)
qed

lemma unat_abs32: "unat ((ix::u32) AND 0x7fffffff) = unat ix mod 2147483648"
proof -
  have a: "(0x7fffffff::u32) = mask 31" by (simp add: mask_eq_exp_minus_1)
  show ?thesis unfolding a
    by (simp add: unsigned_and_eq take_bit_eq_mod unat_div unat_mod flip: take_bit_eq_mask)
qed

lemma unat_dbl32: "unat (2 * (ix::u32)) = 2 * (unat ix mod 2147483648)"
  using mult_mod_right[of 2 "unat ix" 2147483648] by (simp add: unat_word_ariths)

lemma unat_lt32: "unat (ix::u32) < 4294967296"
  using unsigned_less[of ix] by simp

lemma expfield_abs: "((n::nat) div 8388608) mod 256 = (n mod 2147483648) div 8388608"
  using drop_bit_take_bit[of 23 31 n] by (simp add: take_bit_eq_mod drop_bit_eq_div)

lemma expfield_ones: "(l::nat) < 2147483648 \<Longrightarrow> (l div 8388608 = 255) = (2139095040 \<le> l)"
  by arith

lemma abs32_eq_0: "(ix::u32) AND 0x7fffffff = 0 \<longleftrightarrow> unat ix mod 2147483648 = 0"
proof -
  have "ix AND 0x7fffffff = 0 \<longleftrightarrow> unat (ix AND 0x7fffffff) = unat (0::u32)"
    by (rule word_eq_iff_unsigned[where 'a=nat])
  then show ?thesis by (simp only: unat_abs32) simp
qed

lemma expfield32_ones:
  "drop_bit 23 (ix::u32) AND 0xff = 0xff \<longleftrightarrow> 2139095040 \<le> unat ix mod 2147483648"
proof -
  have "drop_bit 23 ix AND 0xff = 0xff \<longleftrightarrow> unat (drop_bit 23 ix AND 0xff) = 255"
    by (simp add: word_eq_iff_unsigned[where 'a=nat])
  also have "\<dots> \<longleftrightarrow> (unat ix mod 2147483648) div 8388608 = 255"
    by (simp only: unat_expfield expfield_abs)
  also have "\<dots> \<longleftrightarrow> 2139095040 \<le> unat ix mod 2147483648"
    by (rule expfield_ones) simp
  finally show ?thesis .
qed

section \<open>The classification of zeros, infinities and NaNs\<close>

lemma zeroinfnan_nat:
  "zeroinfnan ix \<longleftrightarrow> unat ix mod 2147483648 = 0 \<or> 2139095040 \<le> unat ix mod 2147483648"
proof -
  define l where "l = unat ix mod 2147483648"
  have l: "l < 2147483648" by (simp add: l_def)
  have d: "unat (2 * ix) = 2 * l" by (simp add: unat_dbl32 l_def)
  show ?thesis
  proof (cases "l = 0")
    case True
    then have "unat (2 * ix) = unat (0::u32)" using d by simp
    then have "2 * ix = 0" by (simp only: word_eq_iff_unsigned[where 'a=nat, symmetric])
    then show ?thesis using True by (simp add: zeroinfnan_def l_def)
  next
    case False
    then have nz: "unat (2 * ix) \<noteq> 0" using d by simp
    then have "1 \<le> 2 * ix" by (simp add: word_le_nat_alt)
    then have s: "unat (2 * ix - 1) = 2 * l - 1" by (simp add: unat_sub d)
    have "zeroinfnan ix \<longleftrightarrow> 0xfeffffff \<le> 2 * l - 1"
      by (simp add: zeroinfnan_def word_le_nat_alt s)
    also have "\<dots> \<longleftrightarrow> 2139095040 \<le> l" using False by arith
    finally show ?thesis using False by (simp add: l_def)
  qed
qed

lemma decode32_fields:
  "decode32 a =
     (let n = unat a; e = n div 8388608 mod 256; f = n mod 8388608;
          s = odd (n div 2147483648)
      in if e = 255 then (if f = 0 then Infty s else Nan)
         else if e = 0 then Finite s f (- 149)
         else Finite s (8388608 + f) (int e - 150))"
  by (simp add: decode32_def fp_decode_def fp_sign_def fp_expo_def fp_frac_def fp_bias_def
      Let_def)

lemma is_zero32_nat: "is_zero (decode32 a) \<longleftrightarrow> unat a mod 2147483648 = 0"
proof -
  define n where "n = unat a"
  have e: "n div 8388608 mod 256 = (n mod 2147483648) div 8388608" by (rule expfield_abs)
  have f: "n mod 8388608 = (n mod 2147483648) mod 8388608"
    using mod_mod_cancel[of 8388608 2147483648 n] by simp
  have "is_zero (decode32 a) \<longleftrightarrow> n div 8388608 mod 256 = 0 \<and> n mod 8388608 = 0"
    by (simp add: decode32_fields Let_def n_def)
  also have "\<dots> \<longleftrightarrow> n mod 2147483648 = 0"
    unfolding e f using div_mult_mod_eq[of "n mod 2147483648" 8388608] by auto
  finally show ?thesis by (simp add: n_def)
qed

lemma not_fin32_nat:
  "is_inf (decode32 a) \<or> decode32 a = Nan \<longleftrightarrow> 2139095040 \<le> unat a mod 2147483648"
proof -
  have "is_inf (decode32 a) \<or> decode32 a = Nan \<longleftrightarrow> unat a div 8388608 mod 256 = 255"
    by (simp add: decode32_fields Let_def)
  also have "\<dots> \<longleftrightarrow> 2139095040 \<le> unat a mod 2147483648"
    unfolding expfield_abs by (rule expfield_ones) simp
  finally show ?thesis .
qed

text \<open>
  C7. \<open>zeroinfnan ix\<close> holds exactly when the biased exponent field of \<open>ix\<close> is all ones or
  \<open>ix\<close> without its sign bit is 0, that is, exactly when \<open>ix\<close> encodes a zero, an infinity
  or a NaN; the comparison is the one of the source, on 32-bit words that wrap around.
\<close>

theorem zeroinfnan_iff:
  "(zeroinfnan ix \<longleftrightarrow> drop_bit 23 ix AND 0xff = 0xff \<or> ix AND 0x7fffffff = 0)
   \<and> (zeroinfnan ix \<longleftrightarrow>
        is_zero (decode32 ix) \<or> is_inf (decode32 ix) \<or> decode32 ix = Nan)"
proof -
  have "zeroinfnan ix \<longleftrightarrow> drop_bit 23 ix AND 0xff = 0xff \<or> ix AND 0x7fffffff = 0"
    unfolding expfield32_ones abs32_eq_0 zeroinfnan_nat by (rule disj_commute)
  moreover have "zeroinfnan ix \<longleftrightarrow>
      is_zero (decode32 ix) \<or> (is_inf (decode32 ix) \<or> decode32 ix = Nan)"
    unfolding is_zero32_nat not_fin32_nat zeroinfnan_nat ..
  ultimately show ?thesis by simp
qed

section \<open>The classification of integers\<close>

lemma and_mask_eq_0_nat: "(iy::u32) AND (2 ^ s - 1) = 0 \<longleftrightarrow> unat iy mod 2 ^ s = 0"
proof -
  have a: "iy AND (2 ^ s - 1) = take_bit s iy"
    by (simp only: mask_eq_exp_minus_1[symmetric] take_bit_eq_mask)
  have "unat (take_bit s iy) = take_bit s (unat iy)" by (rule unsigned_take_bit_eq)
  also have "\<dots> = unat iy mod 2 ^ s" by (rule take_bit_eq_mod)
  finally have u: "unat (take_bit s iy) = unat iy mod 2 ^ s" .
  have "take_bit s iy = 0 \<longleftrightarrow> unat (take_bit s iy) = unat (0::u32)"
    by (rule word_eq_iff_unsigned[where 'a=nat])
  then show ?thesis unfolding a u by simp
qed

lemma and_bit_eq_0_nat: "(iy::u32) AND 2 ^ s = 0 \<longleftrightarrow> even (unat iy div 2 ^ s)"
proof -
  have "iy AND 2 ^ s = 0 \<longleftrightarrow> \<not> bit iy s" by (rule and_exp_eq_0_iff_not_bit)
  also have "\<dots> \<longleftrightarrow> \<not> bit (unat iy) s" by (simp add: bit_unsigned_iff)
  also have "\<dots> \<longleftrightarrow> even (unat iy div 2 ^ s)" by (simp add: bit_iff_odd)
  finally show ?thesis .
qed

lemma checkint_nat:
  "checkint iy =
     (let n = unat iy; e = n div 8388608 mod 256 in
      if e < 127 then 0 else if 150 < e then 2
      else if n mod 2 ^ (150 - e) \<noteq> 0 then 0
      else if odd (n div 2 ^ (150 - e)) then 1 else 2)"
  by (simp add: checkint_def Let_def unat_expfield and_mask_eq_0_nat and_bit_eq_0_nat)

lemma unit_scale_Ints:
  fixes w :: real
  assumes "c = 1 \<or> c = - 1"
  shows "(c * w \<in> \<int>) = (w \<in> \<int>)"
  using assms by auto

lemma unit_scale_odd:
  fixes w :: real
  assumes c: "c = 1 \<or> c = - 1" and w: "w \<in> \<int>"
  shows "odd \<lfloor>c * w\<rfloor> = odd \<lfloor>w\<rfloor>"
proof -
  from w obtain k :: int where k: "w = of_int k" by (rule Ints_cases)
  have "\<lfloor>- w\<rfloor> = - k" unfolding k by (simp flip: of_int_minus)
  moreover have "\<lfloor>w\<rfloor> = k" by (simp add: k)
  ultimately show ?thesis using c by auto
qed

lemma div_pow2_Ints: "(real M / 2 ^ s \<in> \<int>) = (M mod 2 ^ s = 0)"
proof
  assume "real M / 2 ^ s \<in> \<int>"
  then obtain k :: int where k: "real M / 2 ^ s = of_int k" by (rule Ints_cases)
  then have "real M = of_int k * 2 ^ s" by (simp add: field_simps)
  then have "real_of_int (int M) = real_of_int (k * 2 ^ s)" by simp
  then have "int M = k * 2 ^ s" by (simp only: of_int_eq_iff)
  then have "int (2 ^ s) dvd int M" by simp
  then have "(2::nat) ^ s dvd M" by (simp only: of_nat_dvd_iff)
  then show "M mod 2 ^ s = 0" by simp
next
  assume "M mod 2 ^ s = 0"
  then have "(2::nat) ^ s dvd M" by (simp add: mod_eq_0_iff_dvd)
  then have "real (M div 2 ^ s) = real M / real (2 ^ s)" by (rule real_of_nat_div)
  then have "real M / 2 ^ s = real (M div 2 ^ s)" by simp
  then show "real M / 2 ^ s \<in> \<int>" by (simp only: Ints_of_nat)
qed

lemma div_pow2_floor: "M mod 2 ^ s = 0 \<Longrightarrow> \<lfloor>real M / 2 ^ s\<rfloor> = int (M div 2 ^ s)"
proof -
  assume "M mod 2 ^ s = 0"
  then have "(2::nat) ^ s dvd M" by (simp add: mod_eq_0_iff_dvd)
  then have "real (M div 2 ^ s) = real M / real (2 ^ s)" by (rule real_of_nat_div)
  then have "real M / 2 ^ s = real (M div 2 ^ s)" by simp
  then show ?thesis by (simp only: floor_of_nat)
qed

lemma checkint_value:
  assumes fin: "is_fin (decode32 iy)" and nz: "\<not> is_zero (decode32 iy)"
  shows "checkint iy = (if valof32 iy \<notin> \<int> then 0 else if odd \<lfloor>valof32 iy\<rfloor> then 1 else 2)
         \<and> (2 ^ 24 \<le> \<bar>valof32 iy\<bar> \<longrightarrow> checkint iy = 2)"
proof -
  define n where "n = unat iy"
  define h where "h = n div 8388608"
  define e where "e = h mod 256"
  define f where "f = n mod 8388608"
  define sg where "sg = odd (n div 2147483648)"
  define c :: real where "c = (if sg then - 1 else 1)"
  have c: "c = 1 \<or> c = - 1" by (simp add: c_def)
  have f: "f < 8388608" by (simp add: f_def)
  have n: "n = h * 8388608 + f" by (simp add: h_def f_def)
  have dec: "decode32 iy =
      (if e = 255 then (if f = 0 then Infty sg else Nan)
       else if e = 0 then Finite sg f (- 149)
       else Finite sg (8388608 + f) (int e - 150))"
    by (simp add: decode32_fields Let_def n_def h_def e_def f_def sg_def)
  have e255: "e \<noteq> 255" using fin dec by (auto split: if_splits)
  have ck: "checkint iy =
      (if e < 127 then 0 else if 150 < e then 2
       else if n mod 2 ^ (150 - e) \<noteq> 0 then 0
       else if odd (n div 2 ^ (150 - e)) then 1 else 2)"
    by (simp add: checkint_nat Let_def n_def h_def e_def)
  consider (small) "e < 127" | (mid) "127 \<le> e" "e \<le> 150" | (large) "150 < e" by linarith
  then show ?thesis
  proof cases
    case small
    define w :: real where
      "w = (if e = 0 then real f / 2 ^ 149 else real (8388608 + f) * 2 powi (int e - 150))"
    have v: "valof32 iy = c * w"
      using e255 by (simp add: valof32_def dec c_def w_def power_int_minus_divide)
    have wpos: "0 < w"
    proof (cases "e = 0")
      case True
      then have "f \<noteq> 0" using nz dec e255 by simp
      then show ?thesis using True by (simp add: w_def)
    next
      case False
      then show ?thesis by (simp add: w_def)
    qed
    have wlt: "w < 1"
    proof (cases "e = 0")
      case True
      have "real f < 8388608" using f by simp
      then have "real f < 2 ^ 149" by simp
      then show ?thesis using True by (simp add: w_def)
    next
      case False
      have "(2::real) powi (int e - 150) \<le> 2 powi (- 24)"
        by (rule power_int_increasing) (use small in simp_all)
      then have p: "(2::real) powi (int e - 150) \<le> 1 / 16777216" by (simp add: power_int_minus_divide)
      have "real (8388608 + f) * 2 powi (int e - 150) \<le> real (8388608 + f) * (1 / 16777216)"
        by (rule mult_left_mono[OF p]) simp
      also have "\<dots> < 1" using f by simp
      finally show ?thesis using False by (simp add: w_def)
    qed
    have "valof32 iy \<notin> \<int>"
    proof
      assume "valof32 iy \<in> \<int>"
      moreover have "\<bar>valof32 iy\<bar> < 1" using c wpos wlt by (auto simp: v abs_mult)
      ultimately have "valof32 iy = 0" by (rule Ints_nonzero_abs_less1)
      then show False using c wpos by (auto simp: v)
    qed
    moreover have "\<bar>valof32 iy\<bar> < 2 ^ 24" using c wpos wlt by (auto simp: v abs_mult)
    ultimately show ?thesis using small by (simp add: ck)
  next
    case large
    define q where "q = (8388608 + f) * 2 ^ (e - 150)"
    have ie: "int e - 150 = int (e - 150)" using large by simp
    have v: "valof32 iy = c * real q"
      using e255 large by (simp add: valof32_def dec c_def q_def ie del: of_nat_diff)
    have ev: "even q" using large by (simp add: q_def)
    have i: "valof32 iy \<in> \<int>" unfolding v unit_scale_Ints[OF c] by (rule Ints_of_nat)
    have "odd \<lfloor>valof32 iy\<rfloor> = odd \<lfloor>real q\<rfloor>" unfolding v by (rule unit_scale_odd[OF c]) simp
    then have "even \<lfloor>valof32 iy\<rfloor>" using ev by simp
    then show ?thesis using large i by (simp add: ck)
  next
    case mid
    define s where "s = 150 - e"
    define M where "M = 8388608 + f"
    have s: "s \<le> 23" using mid by (simp add: s_def)
    have ie: "int e - 150 = - int s" using mid by (simp add: s_def)
    have v: "valof32 iy = c * (real M / 2 ^ s)"
      using e255 mid by (simp add: valof32_def dec c_def M_def ie power_int_minus_divide)
    have p: "(8388608::nat) = 2 ^ (23 - s) * 2 ^ s"
      using s by (simp flip: power_add)
    have nmod: "n mod 2 ^ s = f mod 2 ^ s"
      unfolding n p by (simp add: mult.assoc[symmetric])
    have Mmod: "M mod 2 ^ s = f mod 2 ^ s"
      unfolding M_def p by simp
    have ndiv: "n div 2 ^ s = h * 2 ^ (23 - s) + f div 2 ^ s"
      unfolding n p by (simp add: mult.assoc[symmetric])
    have Mdiv: "M div 2 ^ s = 2 ^ (23 - s) + f div 2 ^ s"
      unfolding M_def p by simp
    have par: "odd (n div 2 ^ s) = odd (M div 2 ^ s)"
    proof (cases "s = 23")
      case True
      then have "e = 127" using mid by (simp add: s_def)
      moreover have "h = 256 * (h div 256) + h mod 256" by simp
      ultimately have "h = 2 * (128 * (h div 256) + 63) + 1" unfolding e_def by simp
      then have "odd h" by (metis even_add even_mult_iff even_numeral odd_one)
      then show ?thesis using True f ndiv Mdiv by simp
    next
      case False
      then have "even ((2::nat) ^ (23 - s))" using s by simp
      then show ?thesis by (simp add: ndiv Mdiv)
    qed
    have bound: "\<bar>valof32 iy\<bar> < 2 ^ 24"
    proof -
      have "real M / 2 ^ s \<le> real M / 1" by (rule divide_left_mono) simp_all
      moreover have "real M < 2 ^ 24" using f by (simp add: M_def)
      ultimately show ?thesis using c by (auto simp: v abs_mult)
    qed
    show ?thesis
    proof (cases "M mod 2 ^ s = 0")
      case False
      then have "real M / 2 ^ s \<notin> \<int>" by (simp only: div_pow2_Ints) simp
      then have "valof32 iy \<notin> \<int>" unfolding v unit_scale_Ints[OF c] .
      moreover have "n mod 2 ^ s \<noteq> 0" using False by (simp only: nmod Mmod) simp
      ultimately show ?thesis using mid bound by (simp add: ck s_def)
    next
      case True
      then have wi: "real M / 2 ^ s \<in> \<int>" by (simp only: div_pow2_Ints)
      then have i: "valof32 iy \<in> \<int>" unfolding v unit_scale_Ints[OF c] .
      have "odd \<lfloor>valof32 iy\<rfloor> = odd \<lfloor>real M / 2 ^ s\<rfloor>" unfolding v by (rule unit_scale_odd[OF c wi])
      also have "\<dots> = odd (M div 2 ^ s)" by (simp only: div_pow2_floor[OF True]) simp
      finally have o: "odd \<lfloor>valof32 iy\<rfloor> = odd (n div 2 ^ s)" by (simp only: par)
      have "n mod 2 ^ s = 0" using True by (simp only: nmod Mmod)
      then show ?thesis using mid bound i o by (simp add: ck s_def)
    qed
  qed
qed

text \<open>
  C8. For a bit pattern \<open>iy\<close> of a finite value \<open>v\<close> that is not 0, \<open>checkint iy\<close> is 0 when
  \<open>v\<close> is not an integer, 1 when it is an odd integer and 2 when it is an even integer;
  every value of magnitude \<open>2^24\<close> or more is classified even.
\<close>

theorem checkint_classifies:
  assumes fin: "is_fin (decode32 iy)" and nz: "\<not> is_zero (decode32 iy)"
  shows "checkint iy = (if valof32 iy \<notin> \<int> then 0 else if odd \<lfloor>valof32 iy\<rfloor> then 1 else 2)
         \<and> (2 ^ 24 \<le> \<bar>valof32 iy\<bar> \<longrightarrow> checkint iy = 2)"
  using assms by (rule checkint_value)

theorem checkint_classifies_witness:
  "is_fin (decode32 0x4b800001) \<and> \<not> is_zero (decode32 0x4b800001)
   \<and> 2 ^ 24 \<le> \<bar>valof32 0x4b800001\<bar> \<and> checkint 0x4b800001 = 2
   \<and> checkint 0x4b800001 =
       (if valof32 0x4b800001 \<notin> \<int> then 0 else if odd \<lfloor>valof32 0x4b800001\<rfloor> then 1 else 2)"
proof -
  have d: "decode32 0x4b800001 = Finite False 8388609 1" by (simp add: decode32_fields)
  have h1: "is_fin (decode32 0x4b800001)" by (simp add: d)
  have h2: "\<not> is_zero (decode32 0x4b800001)" by (simp add: d)
  have v: "valof32 0x4b800001 = 16777218" by (simp add: valof32_def d)
  have h3: "2 ^ 24 \<le> \<bar>valof32 0x4b800001\<bar>" by (simp add: v)
  show ?thesis using checkint_classifies[OF h1 h2] h1 h2 h3 by blast
qed


section \<open>The arithmetic on the constants of the dispatcher\<close>

lemma rnd64_1_1: "fp_round_mag 11 52 1 1 = 4607182418800017408"
  by (simp add: fp_round_mag_def ilog2_frac_def blen.simps Let_def rne_div_def fp_bias_def fp_inf_mag_def cong: let_weak_cong)

lemma rnd64_20_1: "fp_round_mag 11 52 32 1 = 4629700416936869888"
  by (simp add: fp_round_mag_def ilog2_frac_def blen.simps Let_def rne_div_def fp_bias_def fp_inf_mag_def cong: let_weak_cong)

lemma dec64_405f800000000000: "decode64 0x405f800000000000 = Finite False 8866461766385664 (- 46)"
  by (simp add: decode64_def fp_decode_def fp_sign_def fp_expo_def fp_frac_def fp_bias_def Let_def)

lemma dec64_3ff0000000000000: "decode64 0x3ff0000000000000 = Finite False 4503599627370496 (- 52)"
  by (simp add: decode64_def fp_decode_def fp_sign_def fp_expo_def fp_frac_def fp_bias_def Let_def)

lemma rnd64_1f8000000000000000000000000_4000000000000000000000000: "fp_round_mag 11 52 39930993907189226147146150969344 316912650057057350374175801344 = 4638566878703255552"
  by (simp add: fp_round_mag_def ilog2_frac_def blen.simps Let_def rne_div_def fp_bias_def fp_inf_mag_def cong: let_weak_cong)

lemma fmul64_405f800000000000_3ff0000000000000: "fmul64 0x405f800000000000 0x3ff0000000000000 = 0x405f800000000000"
  by (simp add: fmul64_def binop64_def is_nan64_def dec64_405f800000000000 dec64_3ff0000000000000 rnd64_1f8000000000000000000000000_4000000000000000000000000 dy_num_def dy_den_def fp_finish_def fp_pack_def fp_inf_mag_def)

lemma dec64_4040000000000000: "decode64 0x4040000000000000 = Finite False 4503599627370496 (- 47)"
  by (simp add: decode64_def fp_decode_def fp_sign_def fp_expo_def fp_frac_def fp_bias_def Let_def)

lemma rnd64_1f8000000000000000000000000_200000000000000000000000: "fp_round_mag 11 52 39930993907189226147146150969344 9903520314283042199192993792 = 4661084876840108032"
  by (simp add: fp_round_mag_def ilog2_frac_def blen.simps Let_def rne_div_def fp_bias_def fp_inf_mag_def cong: let_weak_cong)

lemma fmul64_405f800000000000_4040000000000000: "fmul64 0x405f800000000000 0x4040000000000000 = 0x40af800000000000"
  by (simp add: fmul64_def binop64_def is_nan64_def dec64_405f800000000000 dec64_4040000000000000 rnd64_1f8000000000000000000000000_200000000000000000000000 dy_num_def dy_den_def fp_finish_def fp_pack_def fp_inf_mag_def)

lemma dec64_40af800000000000: "decode64 0x40af800000000000 = Finite False 8866461766385664 (- 41)"
  by (simp add: decode64_def fp_decode_def fp_sign_def fp_expo_def fp_frac_def fp_bias_def Let_def)

lemma dec64_405fffffffd1d571: "decode64 0x405fffffffd1d571 = Finite False 9007199251715441 (- 46)"
  by (simp add: decode64_def fp_decode_def fp_sign_def fp_expo_def fp_frac_def fp_bias_def Let_def)

lemma rnd64_1fffffffd1d5710000000000000_4000000000000000000000000: "fp_round_mag 11 52 40564819193677470491704071028736 316912650057057350374175801344 = 4638707616188585329"
  by (simp add: fp_round_mag_def ilog2_frac_def blen.simps Let_def rne_div_def fp_bias_def fp_inf_mag_def cong: let_weak_cong)

lemma fmul64_405fffffffd1d571_3ff0000000000000: "fmul64 0x405fffffffd1d571 0x3ff0000000000000 = 0x405fffffffd1d571"
  by (simp add: fmul64_def binop64_def is_nan64_def dec64_405fffffffd1d571 dec64_3ff0000000000000 rnd64_1fffffffd1d5710000000000000_4000000000000000000000000 dy_num_def dy_den_def fp_finish_def fp_pack_def fp_inf_mag_def)

lemma rnd64_1fffffffd1d5710000000000000_200000000000000000000000: "fp_round_mag 11 52 40564819193677470491704071028736 9903520314283042199192993792 = 4661225614325437809"
  by (simp add: fp_round_mag_def ilog2_frac_def blen.simps Let_def rne_div_def fp_bias_def fp_inf_mag_def cong: let_weak_cong)

lemma fmul64_405fffffffd1d571_4040000000000000: "fmul64 0x405fffffffd1d571 0x4040000000000000 = 0x40afffffffd1d571"
  by (simp add: fmul64_def binop64_def is_nan64_def dec64_405fffffffd1d571 dec64_4040000000000000 rnd64_1fffffffd1d5710000000000000_200000000000000000000000 dy_num_def dy_den_def fp_finish_def fp_pack_def fp_inf_mag_def)

lemma dec64_40afffffffd1d571: "decode64 0x40afffffffd1d571 = Finite False 9007199251715441 (- 41)"
  by (simp add: decode64_def fp_decode_def fp_sign_def fp_expo_def fp_frac_def fp_bias_def Let_def)

lemma dec64_c062c00000000000: "decode64 0xc062c00000000000 = Finite True 5277655813324800 (- 45)"
  by (simp add: decode64_def fp_decode_def fp_sign_def fp_expo_def fp_frac_def fp_bias_def Let_def)

lemma rnd64_12c000000000000000000000000_2000000000000000000000000: "fp_round_mag 11 52 23768448754279301278063185100800 158456325028528675187087900672 = 4639481672377565184"
  by (simp add: fp_round_mag_def ilog2_frac_def blen.simps Let_def rne_div_def fp_bias_def fp_inf_mag_def cong: let_weak_cong)

lemma fmul64_c062c00000000000_3ff0000000000000: "fmul64 0xc062c00000000000 0x3ff0000000000000 = 0xc062c00000000000"
  by (simp add: fmul64_def binop64_def is_nan64_def dec64_c062c00000000000 dec64_3ff0000000000000 rnd64_12c000000000000000000000000_2000000000000000000000000 dy_num_def dy_den_def fp_finish_def fp_pack_def fp_inf_mag_def)

lemma rnd64_12c000000000000000000000000_100000000000000000000000: "fp_round_mag 11 52 23768448754279301278063185100800 4951760157141521099596496896 = 4661999670514417664"
  by (simp add: fp_round_mag_def ilog2_frac_def blen.simps Let_def rne_div_def fp_bias_def fp_inf_mag_def cong: let_weak_cong)

lemma fmul64_c062c00000000000_4040000000000000: "fmul64 0xc062c00000000000 0x4040000000000000 = 0xc0b2c00000000000"
  by (simp add: fmul64_def binop64_def is_nan64_def dec64_c062c00000000000 dec64_4040000000000000 rnd64_12c000000000000000000000000_100000000000000000000000 dy_num_def dy_den_def fp_finish_def fp_pack_def fp_inf_mag_def)

lemma dec64_c0b2c00000000000: "decode64 0xc0b2c00000000000 = Finite True 5277655813324800 (- 40)"
  by (simp add: decode64_def fp_decode_def fp_sign_def fp_expo_def fp_frac_def fp_bias_def Let_def)

lemma dec64_c062a00000000000: "decode64 0xc062a00000000000 = Finite True 5242471441235968 (- 45)"
  by (simp add: decode64_def fp_decode_def fp_sign_def fp_expo_def fp_frac_def fp_bias_def Let_def)

lemma rnd64_12a000000000000000000000000_2000000000000000000000000: "fp_round_mag 11 52 23609992429250772602876097200128 158456325028528675187087900672 = 4639446488005476352"
  by (simp add: fp_round_mag_def ilog2_frac_def blen.simps Let_def rne_div_def fp_bias_def fp_inf_mag_def cong: let_weak_cong)

lemma fmul64_c062a00000000000_3ff0000000000000: "fmul64 0xc062a00000000000 0x3ff0000000000000 = 0xc062a00000000000"
  by (simp add: fmul64_def binop64_def is_nan64_def dec64_c062a00000000000 dec64_3ff0000000000000 rnd64_12a000000000000000000000000_2000000000000000000000000 dy_num_def dy_den_def fp_finish_def fp_pack_def fp_inf_mag_def)

lemma rnd64_12a000000000000000000000000_100000000000000000000000: "fp_round_mag 11 52 23609992429250772602876097200128 4951760157141521099596496896 = 4661964486142328832"
  by (simp add: fp_round_mag_def ilog2_frac_def blen.simps Let_def rne_div_def fp_bias_def fp_inf_mag_def cong: let_weak_cong)

lemma fmul64_c062a00000000000_4040000000000000: "fmul64 0xc062a00000000000 0x4040000000000000 = 0xc0b2a00000000000"
  by (simp add: fmul64_def binop64_def is_nan64_def dec64_c062a00000000000 dec64_4040000000000000 rnd64_12a000000000000000000000000_100000000000000000000000 dy_num_def dy_den_def fp_finish_def fp_pack_def fp_inf_mag_def)

lemma dec64_c0b2a00000000000: "decode64 0xc0b2a00000000000 = Finite True 5242471441235968 (- 40)"
  by (simp add: decode64_def fp_decode_def fp_sign_def fp_expo_def fp_frac_def fp_bias_def Let_def)


lemma dec64_408f400000000000: "decode64 0x408f400000000000 = Finite False 8796093022208000 (- 43)"
  by (simp add: decode64_def fp_decode_def fp_sign_def fp_expo_def fp_frac_def fp_bias_def Let_def)

lemma i32_to_f64_1: "i32_to_f64 1 = 0x3ff0000000000000"
  by (simp add: i32_to_f64_def fp_finish_def fp_pack_def rnd64_1_1[unfolded One_nat_def])

lemma i32_to_f64_32: "i32_to_f64 32 = 0x4040000000000000"
  by (simp add: i32_to_f64_def fp_finish_def fp_pack_def rnd64_20_1[unfolded One_nat_def])

lemma POWF_SCALE_cases:
  "POWF_SCALE cfg = (if TOINT_INTRINSICS cfg then 0x4040000000000000 else 0x3ff0000000000000)"
  by (simp add: POWF_SCALE_def POWF_SCALE_BITS_def EXP2F_TABLE_BITS_def i32_to_f64_1 i32_to_f64_32)

lemma unat_top16: "unat (drop_bit 47 (d::u64) AND 0xffff) = unat d div 140737488355328 mod 65536"
proof -
  have a: "(0xffff::u64) = mask 16" by (simp add: mask_eq_exp_minus_1)
  show ?thesis unfolding a
    by (simp add: unsigned_and_eq unsigned_drop_bit_eq drop_bit_eq_div take_bit_eq_mod
        unat_div unat_mod flip: take_bit_eq_mask)
qed

lemma decode64_fields:
  "decode64 a =
     (let n = unat a; e = n div 4503599627370496 mod 2048; f = n mod 4503599627370496;
          s = odd (n div 9223372036854775808)
      in if e = 2047 then (if f = 0 then Infty s else Nan)
         else if e = 0 then Finite s f (- 1074)
         else Finite s (4503599627370496 + f) (int e - 1075))"
  by (simp add: decode64_def fp_decode_def fp_sign_def fp_expo_def fp_frac_def fp_bias_def
      Let_def)

lemma top16_fields:
  "(n::nat) div 140737488355328 mod 65536
     = 32 * (n div 4503599627370496 mod 2048) + n mod 4503599627370496 div 140737488355328"
proof -
  define h where "h = n div 4503599627370496"
  define f where "f = n mod 4503599627370496"
  define g where "g = f div 140737488355328"
  have f: "f < 4503599627370496" by (simp add: f_def)
  have g: "g < 32" unfolding g_def using f by (simp add: div_less_iff_less_mult)
  have "n = h * 4503599627370496 + f" by (simp add: h_def f_def)
  then have n: "n = (h * 32) * 140737488355328 + f" by simp
  have d: "n div 140737488355328 = h * 32 + g"
    unfolding g_def by (subst n) (simp only: div_mult_self3 zero_neq_numeral not_False_eq_True)
  define q where "q = h div 2048"
  define r where "r = h mod 2048"
  have hq: "h = q * 2048 + r" by (simp add: q_def r_def)
  have r: "r < 2048" by (simp add: r_def)
  have "h * 32 + g = q * 65536 + (32 * r + g)"
    by (subst hq) (simp add: algebra_simps)
  then have "(h * 32 + g) mod 65536 = (q * 65536 + (32 * r + g)) mod 65536"
    by (rule arg_cong)
  also have "\<dots> = (32 * r + g) mod 65536" by (rule mod_mult_self3)
  also have "\<dots> = 32 * r + g" using r g by (intro mod_less) linarith
  finally have "(h * 32 + g) mod 65536 = 32 * (h mod 2048) + g" by (simp only: r_def)
  then have "n div 140737488355328 mod 65536 = 32 * (h mod 2048) + g" by (simp only: d)
  then show ?thesis by (simp only: h_def g_def f_def)
qed

lemma below_threshold:
  fixes e f E0 :: nat
  assumes f: "f < 4503599627370496"
    and lt: "32 * e + f div 140737488355328 < 32 * E0 + 31"
    and E0: "2 \<le> E0"
  shows "real (if e = 0 then f else 4503599627370496 + f) * 2 powi (int (max e 1) - 1075)
           < 63 * 2 powi (int E0 - 1028)"
proof -
  define M where "M = (if e = 0 then f else 4503599627370496 + f)"
  have p0: "0 < (2::real) powi k" for k by simp
  have le: "e \<le> E0" using lt by linarith
  have "real M * 2 powi (int (max e 1) - 1075) < 63 * 2 powi (int E0 - 1028)"
  proof (cases "e = E0")
    case True
    then have "f div 140737488355328 < 31" using lt by simp
    then have "f < 31 * 140737488355328" by (simp add: div_less_iff_less_mult)
    then have "M < 63 * 140737488355328" using True E0 by (simp add: M_def)
    then have "real M < 63 * 2 powi 47" by simp
    then have "real M * 2 powi (int E0 - 1075) < (63 * 2 powi 47) * 2 powi (int E0 - 1075)"
      by (rule mult_strict_right_mono) (rule p0)
    also have "\<dots> = 63 * (2 powi 47 * 2 powi (int E0 - 1075))" by simp
    also have "2 powi 47 * (2::real) powi (int E0 - 1075) = 2 powi (47 + (int E0 - 1075))"
      by (rule power_int_add[symmetric]) simp
    also have "47 + (int E0 - 1075) = int E0 - 1028" by simp
    finally show ?thesis using True E0 by (simp add: max_def)
  next
    case False
    then have "e < E0" using le by simp
    then have X: "int (max e 1) - 1075 \<le> int E0 - 1076" using E0 by (simp add: max_def)
    have "M < 9007199254740992" using f by (simp add: M_def)
    then have M: "real M < 2 powi 53" by simp
    have "real M * 2 powi (int (max e 1) - 1075) \<le> real M * 2 powi (int E0 - 1076)"
      by (rule mult_left_mono[OF power_int_increasing[OF X]]) simp_all
    also have "\<dots> < 2 powi 53 * 2 powi (int E0 - 1076)"
      by (rule mult_strict_right_mono[OF M]) (rule p0)
    also have "\<dots> = 2 powi (53 + (int E0 - 1076))"
      by (rule power_int_add[symmetric]) simp
    also have "53 + (int E0 - 1076) = 5 + (int E0 - 1028)" by simp
    also have "(2::real) powi (5 + (int E0 - 1028)) = 2 powi 5 * 2 powi (int E0 - 1028)"
      by (rule power_int_add) simp
    also have "\<dots> < 63 * 2 powi (int E0 - 1028)"
      by (rule mult_strict_right_mono) (simp, rule p0)
    finally show ?thesis .
  qed
  then show ?thesis by (simp add: M_def)
qed

lemma scaled_real:
  assumes "z \<le> x"
  shows "real_of_int (scaled s m x z) * 2 powi z = real_of_val (Finite s m x)"
proof -
  have "(2::real) ^ nat (x - z) = 2 powi (x - z)" using assms by (simp add: power_int_def)
  moreover have "(2::real) powi (x - z) * 2 powi z = 2 powi ((x - z) + z)"
    by (rule power_int_add[symmetric]) simp
  ultimately have "(2::real) ^ nat (x - z) * 2 powi z = 2 powi x" by simp
  then show ?thesis by (simp add: mult.assoc)
qed

lemma less_val_real:
  "less_val (Finite s m x) (Finite t n y)
     \<longleftrightarrow> real_of_val (Finite s m x) < real_of_val (Finite t n y)"
proof -
  define z where "z = min x y"
  have p: "0 < (2::real) powi z" by simp
  have a: "real_of_int (scaled s m x z) * 2 powi z = real_of_val (Finite s m x)"
    by (rule scaled_real) (simp add: z_def)
  have b: "real_of_int (scaled t n y z) * 2 powi z = real_of_val (Finite t n y)"
    by (rule scaled_real) (simp add: z_def)
  have "real_of_val (Finite s m x) < real_of_val (Finite t n y)
      \<longleftrightarrow> real_of_int (scaled s m x z) * 2 powi z < real_of_int (scaled t n y z) * 2 powi z"
    by (simp only: a b)
  also have "\<dots> \<longleftrightarrow> scaled s m x z < scaled t n y z"
    using p by (simp only: mult_less_cancel_right_pos of_int_less_iff)
  finally show ?thesis by (simp only: less_val.simps z_def)
qed

lemma eq_val_real:
  "eq_val (Finite s m x) (Finite t n y)
     \<longleftrightarrow> real_of_val (Finite s m x) = real_of_val (Finite t n y)"
proof -
  define z where "z = min x y"
  have p: "(2::real) powi z \<noteq> 0" by simp
  have a: "real_of_int (scaled s m x z) * 2 powi z = real_of_val (Finite s m x)"
    by (rule scaled_real) (simp add: z_def)
  have b: "real_of_int (scaled t n y z) * 2 powi z = real_of_val (Finite t n y)"
    by (rule scaled_real) (simp add: z_def)
  have "real_of_val (Finite s m x) = real_of_val (Finite t n y)
      \<longleftrightarrow> real_of_int (scaled s m x z) * 2 powi z = real_of_int (scaled t n y z) * 2 powi z"
    by (simp only: a b)
  also have "\<dots> \<longleftrightarrow> scaled s m x z = scaled t n y z"
    using p by (simp only: mult_cancel_right of_int_eq_iff) simp
  finally show ?thesis by (simp only: eq_val.simps z_def)
qed

section \<open>The fast test on the exponent field\<close>

lemma abs_real_of_val: "\<bar>real_of_val (Finite s m x)\<bar> = real m * 2 powi x"
  by (simp add: abs_mult)

lemma abs_valof64_fields:
  assumes "unat d div 4503599627370496 mod 2048 \<noteq> 2047"
  shows "\<bar>valof64 d\<bar> =
      real (if unat d div 4503599627370496 mod 2048 = 0 then unat d mod 4503599627370496
            else 4503599627370496 + unat d mod 4503599627370496)
        * 2 powi (int (max (unat d div 4503599627370496 mod 2048) 1) - 1075)"
proof -
  define e where "e = unat d div 4503599627370496 mod 2048"
  define f where "f = unat d mod 4503599627370496"
  define s where "s = odd (unat d div 9223372036854775808)"
  have x: "int (max e 1) - 1075 = (if e = 0 then - 1074 else int e - 1075)"
    by (simp add: max_def)
  have "decode64 d = Finite s (if e = 0 then f else 4503599627370496 + f)
      (int (max e 1) - 1075)"
    using assms unfolding x by (simp add: decode64_fields Let_def e_def f_def s_def)
  then have "\<bar>valof64 d\<bar> = real (if e = 0 then f else 4503599627370496 + f)
      * 2 powi (int (max e 1) - 1075)"
    by (simp only: valof64_def abs_real_of_val)
  then show ?thesis by (simp only: e_def f_def)
qed

lemma powf_big_nat:
  fixes E0 :: nat
  assumes E0: "2 \<le> E0" "E0 \<le> 2046"
    and big: "is_inf (decode64 d)
      \<or> is_fin (decode64 d) \<and> 63 * 2 powi (int E0 - 1028) \<le> \<bar>valof64 d\<bar>"
  shows "32 * E0 + 31 \<le> unat d div 140737488355328 mod 65536"
proof (rule ccontr)
  define n where "n = unat d"
  define e where "e = n div 4503599627370496 mod 2048"
  define f where "f = n mod 4503599627370496"
  assume "\<not> 32 * E0 + 31 \<le> unat d div 140737488355328 mod 65536"
  then have lt: "32 * e + f div 140737488355328 < 32 * E0 + 31"
    by (simp add: top16_fields e_def f_def n_def)
  have f: "f < 4503599627370496" by (simp add: f_def)
  have "e \<le> E0" using lt by linarith
  then have e: "e \<noteq> 2047" using E0 by simp
  then have "\<not> is_inf (decode64 d)"
    by (simp add: decode64_fields Let_def e_def n_def)
  then have ge: "63 * 2 powi (int E0 - 1028) \<le> \<bar>valof64 d\<bar>" using big by simp
  have "\<bar>valof64 d\<bar> = real (if e = 0 then f else 4503599627370496 + f)
      * 2 powi (int (max e 1) - 1075)"
    using e unfolding e_def f_def n_def by (rule abs_valof64_fields)
  also have "\<dots> < 63 * 2 powi (int E0 - 1028)"
    using f lt E0(1) by (rule below_threshold)
  finally show False using ge by simp
qed

lemma fgt64_value:
  assumes h: "decode64 h = Finite False mh xh" and gt: "fgt64 d h"
  shows "is_inf (decode64 d)
    \<or> is_fin (decode64 d) \<and> real_of_val (Finite False mh xh) \<le> \<bar>valof64 d\<bar>"
proof (cases "decode64 d")
  case Nan
  then show ?thesis using gt h by (simp add: fgt64_def)
next
  case (Infty s)
  then show ?thesis by simp
next
  case (Finite t n y)
  then have "real_of_val (Finite False mh xh) < valof64 d"
    using gt h by (simp only: fgt64_def valof64_def less_val_real)
  then show ?thesis using Finite by simp
qed

lemma fle64_value:
  assumes l: "decode64 l = Finite True ml xl" and le: "fle64 d l"
  shows "is_inf (decode64 d)
    \<or> is_fin (decode64 d) \<and> - real_of_val (Finite True ml xl) \<le> \<bar>valof64 d\<bar>"
proof (cases "decode64 d")
  case Nan
  then show ?thesis using le l by (simp add: fle64_def)
next
  case (Infty s)
  then show ?thesis by simp
next
  case (Finite t n y)
  then have "valof64 d < real_of_val (Finite True ml xl)
      \<or> valof64 d = real_of_val (Finite True ml xl)"
    using le l by (simp only: fle64_def valof64_def less_val_real eq_val_real)
  then show ?thesis using Finite by auto
qed

lemma valof64_scale:
  "valof64 (POWF_SCALE cfg) = (if TOINT_INTRINSICS cfg then 32 else 1)"
  by (simp add: POWF_SCALE_cases valof64_def dec64_3ff0000000000000 dec64_4040000000000000)

lemma powf_big_threshold:
  "powf_big cfg d \<longleftrightarrow>
     32 * (if TOINT_INTRINSICS cfg then 1034 else 1029) + 31
       \<le> unat d div 140737488355328 mod 65536"
  by (simp add: powf_big_def POWF_SCALE_cases fmul64_405f800000000000_3ff0000000000000
      fmul64_405f800000000000_4040000000000000 word_le_nat_alt unat_top16)

lemma powf_big_value:
  "(is_inf (decode64 d)
      \<or> is_fin (decode64 d) \<and> 126 * valof64 (POWF_SCALE cfg) \<le> \<bar>valof64 d\<bar>
    \<longrightarrow> powf_big cfg d)
   \<and> (fgt64 d (fmul64 0x405fffffffd1d571 (POWF_SCALE cfg))
      \<or> fle64 d (fmul64 0xc062c00000000000 (POWF_SCALE cfg))
    \<longrightarrow> powf_big cfg d)"
proof (cases "TOINT_INTRINSICS cfg")
  case False
  have main: "powf_big cfg d"
    if "is_inf (decode64 d) \<or> is_fin (decode64 d) \<and> 126 \<le> \<bar>valof64 d\<bar>"
  proof -
    have "32 * 1029 + 31 \<le> unat d div 140737488355328 mod 65536"
      by (rule powf_big_nat) (use that in simp_all)
    then show ?thesis using False by (simp add: powf_big_threshold)
  qed
  have hi: "powf_big cfg d" if "fgt64 d 0x405fffffffd1d571"
  proof -
    have "is_inf (decode64 d) \<or> is_fin (decode64 d)
        \<and> real_of_val (Finite False 9007199251715441 (- 46)) \<le> \<bar>valof64 d\<bar>"
      using dec64_405fffffffd1d571 that by (rule fgt64_value)
    moreover have "126 \<le> real_of_val (Finite False 9007199251715441 (- 46))"
      by (simp add: power_int_minus_divide)
    ultimately show ?thesis by (intro main) auto
  qed
  have lo: "powf_big cfg d" if "fle64 d 0xc062c00000000000"
  proof -
    have "is_inf (decode64 d) \<or> is_fin (decode64 d)
        \<and> - real_of_val (Finite True 5277655813324800 (- 45)) \<le> \<bar>valof64 d\<bar>"
      using dec64_c062c00000000000 that by (rule fle64_value)
    moreover have "126 \<le> - real_of_val (Finite True 5277655813324800 (- 45))"
      by (simp add: power_int_minus_divide)
    ultimately show ?thesis by (intro main) auto
  qed
  have h: "fmul64 0x405fffffffd1d571 (POWF_SCALE cfg) = 0x405fffffffd1d571"
    using False by (simp add: POWF_SCALE_cases fmul64_405fffffffd1d571_3ff0000000000000)
  have l: "fmul64 0xc062c00000000000 (POWF_SCALE cfg) = 0xc062c00000000000"
    using False by (simp add: POWF_SCALE_cases fmul64_c062c00000000000_3ff0000000000000)
  show ?thesis using False main hi lo unfolding h l by (auto simp: valof64_scale)
next
  case True
  have main: "powf_big cfg d"
    if "is_inf (decode64 d) \<or> is_fin (decode64 d) \<and> 4032 \<le> \<bar>valof64 d\<bar>"
  proof -
    have "32 * 1034 + 31 \<le> unat d div 140737488355328 mod 65536"
      by (rule powf_big_nat) (use that in simp_all)
    then show ?thesis using True by (simp add: powf_big_threshold)
  qed
  have hi: "powf_big cfg d" if "fgt64 d 0x40afffffffd1d571"
  proof -
    have "is_inf (decode64 d) \<or> is_fin (decode64 d)
        \<and> real_of_val (Finite False 9007199251715441 (- 41)) \<le> \<bar>valof64 d\<bar>"
      using dec64_40afffffffd1d571 that by (rule fgt64_value)
    moreover have "4032 \<le> real_of_val (Finite False 9007199251715441 (- 41))"
      by (simp add: power_int_minus_divide)
    ultimately show ?thesis by (intro main) auto
  qed
  have lo: "powf_big cfg d" if "fle64 d 0xc0b2c00000000000"
  proof -
    have "is_inf (decode64 d) \<or> is_fin (decode64 d)
        \<and> - real_of_val (Finite True 5277655813324800 (- 40)) \<le> \<bar>valof64 d\<bar>"
      using dec64_c0b2c00000000000 that by (rule fle64_value)
    moreover have "4032 \<le> - real_of_val (Finite True 5277655813324800 (- 40))"
      by (simp add: power_int_minus_divide)
    ultimately show ?thesis by (intro main) auto
  qed
  have h: "fmul64 0x405fffffffd1d571 (POWF_SCALE cfg) = 0x40afffffffd1d571"
    using True by (simp add: POWF_SCALE_cases fmul64_405fffffffd1d571_4040000000000000)
  have l: "fmul64 0xc062c00000000000 (POWF_SCALE cfg) = 0xc0b2c00000000000"
    using True by (simp add: POWF_SCALE_cases fmul64_c062c00000000000_4040000000000000)
  show ?thesis using True main hi lo unfolding h l by (auto simp: valof64_scale)
qed

text \<open>
  C6. Whenever a double \<open>d\<close> is an infinity or is finite with \<open>|d| \<ge> 126 * POWF_SCALE\<close>, the
  test of line 210 on its bits 47 to 62 is true; in particular it is true whenever \<open>d\<close> is
  above the overflow threshold or at or below the underflow threshold, so such a \<open>d\<close> never
  reaches \<open>exp2_inline\<close> past the slow branch. Both values of \<open>POWF_SCALE\<close> are covered.
\<close>

theorem powf_big_complete:
  "(is_inf (decode64 d)
      \<or> is_fin (decode64 d) \<and> 126 * valof64 (POWF_SCALE cfg) \<le> \<bar>valof64 d\<bar>
    \<longrightarrow> powf_big cfg d)
   \<and> (fgt64 d (fmul64 0x405fffffffd1d571 (POWF_SCALE cfg))
      \<or> fle64 d (fmul64 0xc062c00000000000 (POWF_SCALE cfg))
    \<longrightarrow> powf_big cfg d)"
  by (rule powf_big_value)

theorem powf_big_complete_witness:
  "is_fin (decode64 0x408f400000000000)
   \<and> 126 * valof64 (POWF_SCALE sample_config) \<le> \<bar>valof64 0x408f400000000000\<bar>
   \<and> fgt64 0x408f400000000000 (fmul64 0x405fffffffd1d571 (POWF_SCALE sample_config))
   \<and> powf_big sample_config 0x408f400000000000"
proof -
  have s: "\<not> TOINT_INTRINSICS sample_config" by (simp add: sample_config_def)
  have h1: "is_fin (decode64 0x408f400000000000)" by (simp add: dec64_408f400000000000)
  have vs: "valof64 (POWF_SCALE sample_config) = 1" using s by (simp add: valof64_scale)
  have vd: "valof64 0x408f400000000000 = 1000"
    by (simp add: valof64_def dec64_408f400000000000 power_int_minus_divide)
  have h2: "126 * valof64 (POWF_SCALE sample_config) \<le> \<bar>valof64 0x408f400000000000\<bar>"
    by (simp add: vs vd)
  have h3: "fgt64 0x408f400000000000 (fmul64 0x405fffffffd1d571 (POWF_SCALE sample_config))"
    using s by (simp add: POWF_SCALE_cases fmul64_405fffffffd1d571_3ff0000000000000 fgt64_def
        dec64_408f400000000000 dec64_405fffffffd1d571)
  from powf_big_complete[of "0x408f400000000000" sample_config] h1 h2
  have "powf_big sample_config 0x408f400000000000" by blast
  then show ?thesis using h1 h2 h3 by blast
qed

section \<open>The sign bias\<close>

lemma add_top_bit: "(w::u64) + 0x8000000000000000 = w XOR 0x8000000000000000"
proof (cases "bit w 63")
  case False
  then have "w AND 2 ^ 63 = 0" by (rule iffD2[OF and_exp_eq_0_iff_not_bit])
  then have "w + 2 ^ 63 = w XOR 2 ^ 63" by (rule disjunctive_add_eq_xor)
  then show ?thesis by simp
next
  case True
  have "\<not> bit (NOT w) 63" using True by (simp add: bit_simps)
  then have n: "NOT w AND 2 ^ 63 = 0" by (rule iffD2[OF and_exp_eq_0_iff_not_bit])
  have "w - 2 ^ 63 = w AND NOT (2 ^ 63)" using n by (rule disjunctive_diff_eq_and_not)
  also have "\<dots> = w XOR 2 ^ 63" using n by (rule disjunctive_and_not_eq_xor)
  finally have "w - 2 ^ 63 = w XOR 2 ^ 63" .
  moreover have "w - 2 ^ 63 = w + 2 ^ 63" by simp
  ultimately show ?thesis by simp
qed

lemma sign_bias_shifted:
  "push_bit (52 - EXP2F_TABLE_BITS) SIGN_BIAS = (0x8000000000000000 :: u64)"
  by (simp add: SIGN_BIAS_def EXP2F_TABLE_BITS_def)

lemma shifted_sign_bias:
  "push_bit (52 - EXP2F_TABLE_BITS) (ki + SIGN_BIAS)
     = push_bit (52 - EXP2F_TABLE_BITS) ki + (0x8000000000000000 :: u64)"
  by (simp only: push_bit_add sign_bias_shifted)

lemma exp2_inline_factors:
  "exp2_inline cfg xd sign_bias = fmul64 (exp2_poly cfg xd) (exp2_scale cfg xd sign_bias)"
  by (simp add: exp2_inline_def exp2_poly_def exp2_scale_def Let_def)

lemma exp2_scale_sign_bias:
  "exp2_scale cfg xd SIGN_BIAS = exp2_scale cfg xd 0 XOR 0x8000000000000000"
proof -
  define ki where "ki =
    (if TOINT_INTRINSICS cfg then converttoint cfg xd
     else if TOINT_INTRINSICS cfg then roundtoint cfg xd
     else fadd64 xd (exp2f_shift_scaled cfg))"
  define t where "t = exp2f_tab cfg ! unat (ki mod push_bit EXP2F_TABLE_BITS 1)"
  have s: "exp2_scale cfg xd sb = t + push_bit (52 - EXP2F_TABLE_BITS) (ki + sb)" for sb
    by (simp add: exp2_scale_def Let_def t_def ki_def)
  have "t + push_bit (52 - EXP2F_TABLE_BITS) (ki + SIGN_BIAS)
      = (t + push_bit (52 - EXP2F_TABLE_BITS) ki) + 0x8000000000000000"
    by (simp only: shifted_sign_bias add.assoc)
  also have "\<dots> = (t + push_bit (52 - EXP2F_TABLE_BITS) ki) XOR 0x8000000000000000"
    by (rule add_top_bit)
  finally show ?thesis by (simp only: s add_0_right)
qed

text \<open>
  C10. \<open>exp2_inline\<close> returns the product of the polynomial \<open>y\<close>, in which the sign bias takes
  no part, and the double \<open>s\<close> constructed from the table entry and
  \<open>(ki + sign_bias) << (52 - EXP2F_TABLE_BITS)\<close>. With \<open>sign_bias = SIGN_BIAS\<close> the shifted
  addend is the one for \<open>sign_bias = 0\<close> plus \<open>2^63\<close> modulo \<open>2^64\<close>, so the constructed \<open>s\<close> is
  the one for \<open>sign_bias = 0\<close> with bit 63, the sign, flipped and every bit of the exponent
  and of the mantissa unchanged: \<open>exp2_inline xd 0 = y * s\<close> and
  \<open>exp2_inline xd SIGN_BIAS = y * (s XOR 2^63)\<close>.
\<close>

theorem exp2_inline_sign_bias:
  "exp2_inline cfg xd 0 = fmul64 (exp2_poly cfg xd) (exp2_scale cfg xd 0)
   \<and> exp2_inline cfg xd SIGN_BIAS
       = fmul64 (exp2_poly cfg xd) (exp2_scale cfg xd 0 XOR 0x8000000000000000)
   \<and> exp2_scale cfg xd SIGN_BIAS = exp2_scale cfg xd 0 XOR 0x8000000000000000
   \<and> (\<forall>n. bit (exp2_scale cfg xd SIGN_BIAS) n \<longleftrightarrow> (bit (exp2_scale cfg xd 0) n \<noteq> (n = 63)))
   \<and> push_bit (52 - EXP2F_TABLE_BITS) (ki + SIGN_BIAS)
       = push_bit (52 - EXP2F_TABLE_BITS) ki + (0x8000000000000000 :: u64)
   \<and> push_bit (52 - EXP2F_TABLE_BITS) (ki + 0) = push_bit (52 - EXP2F_TABLE_BITS) ki"
proof -
  have a: "exp2_inline cfg xd 0 = fmul64 (exp2_poly cfg xd) (exp2_scale cfg xd 0)"
    by (rule exp2_inline_factors)
  have b: "exp2_inline cfg xd SIGN_BIAS
      = fmul64 (exp2_poly cfg xd) (exp2_scale cfg xd 0 XOR 0x8000000000000000)"
    by (simp only: exp2_inline_factors exp2_scale_sign_bias)
  have c: "bit (exp2_scale cfg xd SIGN_BIAS) n \<longleftrightarrow> (bit (exp2_scale cfg xd 0) n \<noteq> (n = 63))"
    for n
  proof -
    have "(0x8000000000000000 :: u64) = 2 ^ 63" by simp
    then have "bit (0x8000000000000000 :: u64) n \<longleftrightarrow> n = 63"
      by (simp only: bit_exp_iff) auto
    then show ?thesis by (simp only: exp2_scale_sign_bias bit_xor_iff)
  qed
  show ?thesis using a b c exp2_scale_sign_bias shifted_sign_bias by simp
qed

section \<open>An exponent that is zero\<close>

lemma nan32_arith:
  assumes "(l::nat) < 2147483648"
  shows "(l div 8388608 = 255 \<and> l mod 8388608 \<noteq> 0) = (2139095040 < l)"
proof -
  have l: "l = l div 8388608 * 8388608 + l mod 8388608" by simp
  show ?thesis
  proof (cases "l div 8388608 = 255")
    case True
    then have "l = 2139095040 + l mod 8388608" using l by simp
    then show ?thesis using True by linarith
  next
    case False
    then have "\<not> 2139095040 \<le> l" using expfield_ones[OF assms] by simp
    then show ?thesis using False by simp
  qed
qed

lemma is_nan32_nat: "is_nan32 a \<longleftrightarrow> 2139095040 < unat a mod 2147483648"
proof -
  define n where "n = unat a"
  have e: "n div 8388608 mod 256 = (n mod 2147483648) div 8388608" by (rule expfield_abs)
  have f: "n mod 8388608 = (n mod 2147483648) mod 8388608"
    using mod_mod_cancel[of 8388608 2147483648 n] by simp
  have "is_nan32 a \<longleftrightarrow> n div 8388608 mod 256 = 255 \<and> n mod 8388608 \<noteq> 0"
    by (simp add: is_nan32_def decode32_fields Let_def n_def)
  also have "\<dots> \<longleftrightarrow> 2139095040 < n mod 2147483648"
    unfolding e f by (rule nan32_arith) simp
  finally show ?thesis by (simp add: n_def)
qed

lemma is_nan32_word: "is_nan32 a \<longleftrightarrow> 0x7f800000 < a AND 0x7fffffff"
  by (simp add: is_nan32_nat word_less_nat_alt unat_abs32)

lemma is_nan32_quiet32: "is_nan32 a \<Longrightarrow> is_nan32 (quiet32 a)"
proof -
  assume "is_nan32 a"
  then have "0x7f800000 < a AND 0x7fffffff" by (simp only: is_nan32_word)
  also have "a AND 0x7fffffff \<le> (a AND 0x7fffffff) OR 0x00400000" by (rule le_word_or2)
  also have "\<dots> = quiet32 a AND 0x7fffffff"
    by (simp add: quiet32_def word_ao_dist)
  finally show ?thesis by (simp only: is_nan32_word)
qed

lemma not_signaling_quiet32: "\<not> issignalingf_inline (quiet32 a)"
  by (simp add: issignalingf_inline_def quiet32_def word_ao_absorbs)

lemma fadd32_nan_left: "is_nan32 a \<Longrightarrow> fadd32 a b = quiet32 a"
  by (simp add: fadd32_def binop32_def is_nan32_def)

lemma zeroinfnan_zero: "zeroinfnan 0" "zeroinfnan 0x80000000"
  by (simp_all add: zeroinfnan_def)

text \<open>
  C1. When \<open>y\<close> is \<open>+0.0\<close> or \<open>-0.0\<close>, \<open>ARM__powf x y\<close> is exactly \<open>1.0f\<close> (\<open>0x3f800000\<close>) for
  every \<open>x\<close> that is not a signaling NaN: a quiet NaN, an infinity, a zero or any finite
  value. When \<open>x\<close> is a signaling NaN the result is \<open>x + y\<close>, which is \<open>x\<close> with its quiet bit
  set, a quiet NaN. No error helper is called on this path.
\<close>

theorem powf_zero_exponent:
  assumes "y = 0 \<or> y = 0x80000000"
  shows "ARM__powf cfg x y = (if issignalingf_inline x then fadd32 x y else 0x3f800000, No_error)
    \<and> (issignalingf_inline x \<longrightarrow>
          fadd32 x y = quiet32 x \<and> is_nan32 (quiet32 x) \<and> \<not> issignalingf_inline (quiet32 x))"
proof -
  have z: "zeroinfnan y" using assms zeroinfnan_zero by auto
  have d: "2 * y = 0" using assms by auto
  have "ARM__powf cfg x y = powf_y_special x y" using z by (simp add: ARM__powf_def)
  also have "\<dots> = (if issignalingf_inline x then fadd32 x y else 0x3f800000, No_error)"
    using d by (simp add: powf_y_special_def)
  finally have a: "ARM__powf cfg x y
      = (if issignalingf_inline x then fadd32 x y else 0x3f800000, No_error)" .
  have b: "fadd32 x y = quiet32 x \<and> is_nan32 (quiet32 x) \<and> \<not> issignalingf_inline (quiet32 x)"
    if "issignalingf_inline x"
  proof -
    have n: "is_nan32 x" using that by (simp add: issignalingf_inline_def)
    show ?thesis using n by (simp add: fadd32_nan_left is_nan32_quiet32 not_signaling_quiet32)
  qed
  show ?thesis using a b by blast
qed

theorem powf_zero_exponent_witness:
  "issignalingf_inline 0x7f800001
   \<and> ARM__powf sample_config 0x7f800001 0x80000000 = (0x7fc00001, No_error)
   \<and> \<not> issignalingf_inline 0x40000000
   \<and> ARM__powf sample_config 0x40000000 0 = (0x3f800000, No_error)"
proof -
  have s: "issignalingf_inline 0x7f800001"
    by (simp add: issignalingf_inline_def is_nan32_def decode32_fields)
  have t: "\<not> issignalingf_inline 0x40000000"
    by (simp add: issignalingf_inline_def is_nan32_def decode32_fields)
  have q: "quiet32 0x7f800001 = 0x7fc00001" by (simp add: quiet32_def)
  have y1: "(0x80000000::u32) = 0 \<or> (0x80000000::u32) = 0x80000000" by simp
  have y2: "(0::u32) = 0 \<or> (0::u32) = 0x80000000" by simp
  show ?thesis
    using powf_zero_exponent[OF y1, of sample_config "0x7f800001"]
      powf_zero_exponent[OF y2, of sample_config "0x40000000"] s t q
    by simp
qed

section \<open>A zero raised to a negative power\<close>

lemma is_fin_iff: "is_fin v \<longleftrightarrow> \<not> (is_inf v \<or> v = Nan)"
  by (cases v) simp_all

lemma zeroinfnan_decode:
  "zeroinfnan a \<longleftrightarrow> is_zero (decode32 a) \<or> \<not> is_fin (decode32 a)"
  unfolding is_fin_iff not_not is_zero32_nat not_fin32_nat zeroinfnan_nat ..

lemma sign32_nat: "(a::u32) AND 0x80000000 \<noteq> 0 \<longleftrightarrow> odd (unat a div 2147483648)"
  using and_bit_eq_0_nat[of a 31] by simp

lemma valof32_negative:
  assumes "is_fin (decode32 y)" "\<not> is_zero (decode32 y)"
  shows "valof32 y < 0 \<longleftrightarrow> y AND 0x80000000 \<noteq> 0"
proof -
  define s where "s = odd (unat y div 2147483648)"
  obtain m x where d: "decode32 y = Finite s m x"
    using assms(1) by (auto simp: decode32_fields Let_def s_def split: if_splits)
  have m: "0 < m" using assms(2) d by simp
  have p: "0 < real m * 2 powi x" using m by simp
  have "valof32 y < 0 \<longleftrightarrow> s"
  proof (cases s)
    case True
    then have "valof32 y = - (real m * 2 powi x)" by (simp add: valof32_def d)
    then show ?thesis using p True by linarith
  next
    case False
    then have "valof32 y = real m * 2 powi x" by (simp add: valof32_def d)
    then show ?thesis using p False by linarith
  qed
  then show ?thesis by (simp only: sign32_nat s_def)
qed

lemma checkint_odd:
  assumes "is_fin (decode32 y)" "\<not> is_zero (decode32 y)"
  shows "checkint y = 1 \<longleftrightarrow> valof32 y \<in> \<int> \<and> odd \<lfloor>valof32 y\<rfloor>"
  using checkint_value[OF assms] by (auto split: if_splits)

lemma fmul32_zeros: "fmul32 0 0 = 0" "fmul32 0x80000000 0x80000000 = 0"
  by (simp_all add: fmul32_def binop32_def is_nan32_def decode32_fields fp_finish_def
      fp_pack_def)

lemma fdiv32_one_zero:
  "fdiv32 0x3f800000 0 = 0x7f800000" "fdiv32 0x3f800000 0x80000000 = 0xff800000"
  by (simp_all add: fdiv32_def binop32_def is_nan32_def decode32_fields fp_finish_def
      fp_pack_def fp_inf_mag_def)

lemma powf_x_special_zero:
  assumes x: "x = 0 \<or> x = 0x80000000" and neg: "y AND 0x80000000 \<noteq> 0"
  shows "powf_x_special cfg x y =
      (if x = 0x80000000 \<and> checkint y = 1 then 0xff800000 else 0x7f800000,
       if WANT_ERRNO cfg then Err_divzero else No_error)"
  using x neg
  by (auto simp: powf_x_special_def Let_def fmul32_zeros fdiv32_one_zero fneg32_def
      math_divzerof_def)

text \<open>
  C4. For a zero base \<open>x\<close> (\<open>+0.0\<close> or \<open>-0.0\<close>) and a finite \<open>y < 0\<close>, \<open>ARM__powf x y\<close> is an
  infinity: \<open>-infinity\<close> exactly when \<open>x\<close> is \<open>-0.0\<close> and \<open>y\<close> is an odd integer, \<open>+infinity\<close> in
  every other case, also for a \<open>y\<close> that is not an integer. \<open>__math_divzerof\<close> is called, and
  the divide-by-zero error reported, exactly when \<open>WANT_ERRNO\<close> is set; the value returned
  does not depend on \<open>WANT_ERRNO\<close>.
\<close>

theorem powf_pole:
  assumes x: "x = 0 \<or> x = 0x80000000"
    and fin: "is_fin (decode32 y)" and nz: "\<not> is_zero (decode32 y)"
    and neg: "valof32 y < 0"
  shows "fst (ARM__powf cfg x y) =
           (if x = 0x80000000 \<and> valof32 y \<in> \<int> \<and> odd \<lfloor>valof32 y\<rfloor>
            then 0xff800000 else 0x7f800000)
    \<and> snd (ARM__powf cfg x y) = (if WANT_ERRNO cfg then Err_divzero else No_error)"
proof -
  have ny: "\<not> zeroinfnan y" using fin nz by (simp add: zeroinfnan_decode)
  have zx: "zeroinfnan x" using x by (auto simp: zeroinfnan_def)
  have c: "x - 0x00800000 \<ge> 0x7f800000 - 0x00800000" using x by auto
  have s: "y AND 0x80000000 \<noteq> 0" using neg valof32_negative[OF fin nz] by simp
  have "ARM__powf cfg x y = powf_x_special cfg x y"
    using ny zx c by (simp add: ARM__powf_def)
  then show ?thesis
    by (simp add: powf_x_special_zero[OF x s] checkint_odd[OF fin nz])
qed

theorem powf_pole_witness:
  "is_fin (decode32 0xc0400000) \<and> \<not> is_zero (decode32 0xc0400000) \<and> valof32 0xc0400000 < 0
   \<and> valof32 0xc0400000 \<in> \<int> \<and> odd \<lfloor>valof32 0xc0400000\<rfloor>
   \<and> ARM__powf sample_config 0x80000000 0xc0400000 = (0xff800000, No_error)
   \<and> ARM__powf sample_config 0 0xc0400000 = (0x7f800000, No_error)"
proof -
  have d: "decode32 0xc0400000 = Finite True 12582912 (- 22)" by (simp add: decode32_fields)
  have v: "valof32 0xc0400000 = - 3" by (simp add: valof32_def d power_int_minus_divide)
  have h1: "is_fin (decode32 0xc0400000)" by (simp add: d)
  have h2: "\<not> is_zero (decode32 0xc0400000)" by (simp add: d)
  have h3: "valof32 0xc0400000 < 0" by (simp add: v)
  have i: "valof32 0xc0400000 \<in> \<int>" by (simp add: v)
  have "\<lfloor>valof32 0xc0400000\<rfloor> = - 3" by (simp add: v)
  then have o: "odd \<lfloor>valof32 0xc0400000\<rfloor>" by simp
  have w: "\<not> WANT_ERRNO sample_config" by (simp add: sample_config_def)
  have x1: "(0x80000000::u32) = 0 \<or> (0x80000000::u32) = 0x80000000" by simp
  have x2: "(0::u32) = 0 \<or> (0::u32) = 0x80000000" by simp
  have a: "ARM__powf sample_config 0x80000000 0xc0400000 = (0xff800000, No_error)"
    using powf_pole[OF x1 h1 h2 h3, of sample_config] i o w by (simp add: prod_eq_iff)
  have b: "ARM__powf sample_config 0 0xc0400000 = (0x7f800000, No_error)"
    using powf_pole[OF x2 h1 h2 h3, of sample_config] w by (simp add: prod_eq_iff)
  show ?thesis using h1 h2 h3 i o a b by simp
qed

section \<open>Zeros in sums and products\<close>

lemma rnd64_100000000000000000000000000_100000000000000000000000000: "fp_round_mag 11 52 20282409603651670423947251286016 20282409603651670423947251286016 = 4607182418800017408"
  by (simp add: fp_round_mag_def ilog2_frac_def blen.simps Let_def rne_div_def fp_bias_def fp_inf_mag_def cong: let_weak_cong)

lemma fmul64_3ff0000000000000_3ff0000000000000: "fmul64 0x3ff0000000000000 0x3ff0000000000000 = 0x3ff0000000000000"
  by (simp add: fmul64_def binop64_def is_nan64_def dec64_3ff0000000000000 dec64_3ff0000000000000 rnd64_100000000000000000000000000_100000000000000000000000000 dy_num_def dy_den_def fp_finish_def fp_pack_def fp_inf_mag_def)

lemma fsub64_3ff0000000000000_3ff0000000000000: "fsub64 0x3ff0000000000000 0x3ff0000000000000 = 0x0000000000000000"
  by (simp add: fsub64_def binop64_def is_nan64_def dec64_3ff0000000000000 dec64_3ff0000000000000 dy_num_def dy_den_def fp_finish_def fp_pack_def fp_inf_mag_def)

lemma dec64_0000000000000000: "decode64 0x0000000000000000 = Finite False 0 (- 1074)"
  by (simp add: decode64_def fp_decode_def fp_sign_def fp_expo_def fp_frac_def fp_bias_def Let_def)

lemma dec64_8000000000000000: "decode64 0x8000000000000000 = Finite True 0 (- 1074)"
  by (simp add: decode64_def fp_decode_def fp_sign_def fp_expo_def fp_frac_def fp_bias_def Let_def)

lemma dec64_40df400000000000: "decode64 0x40df400000000000 = Finite False 8796093022208000 (- 38)"
  by (simp add: decode64_def fp_decode_def fp_sign_def fp_expo_def fp_frac_def fp_bias_def Let_def)

lemma rnd64_1f4000000000000000000000000_800000000000000000000000: "fp_round_mag 11 52 39614081257132168796771975168000 39614081257132168796771975168 = 4652007308841189376"
  by (simp add: fp_round_mag_def ilog2_frac_def blen.simps Let_def rne_div_def fp_bias_def fp_inf_mag_def cong: let_weak_cong)

lemma fmul64_408f400000000000_3ff0000000000000: "fmul64 0x408f400000000000 0x3ff0000000000000 = 0x408f400000000000"
  by (simp add: fmul64_def binop64_def is_nan64_def dec64_408f400000000000 dec64_3ff0000000000000 rnd64_1f4000000000000000000000000_800000000000000000000000 dy_num_def dy_den_def fp_finish_def fp_pack_def fp_inf_mag_def)

lemma rnd64_1f4000000000000000000000000_40000000000000000000000: "fp_round_mag 11 52 39614081257132168796771975168000 1237940039285380274899124224 = 4674525306978041856"
  by (simp add: fp_round_mag_def ilog2_frac_def blen.simps Let_def rne_div_def fp_bias_def fp_inf_mag_def cong: let_weak_cong)

lemma fmul64_408f400000000000_4040000000000000: "fmul64 0x408f400000000000 0x4040000000000000 = 0x40df400000000000"
  by (simp add: fmul64_def binop64_def is_nan64_def dec64_408f400000000000 dec64_4040000000000000 rnd64_1f4000000000000000000000000_40000000000000000000000 dy_num_def dy_den_def fp_finish_def fp_pack_def fp_inf_mag_def)

lemma dec64_c08f400000000000: "decode64 0xc08f400000000000 = Finite True 8796093022208000 (- 43)"
  by (simp add: decode64_def fp_decode_def fp_sign_def fp_expo_def fp_frac_def fp_bias_def Let_def)

lemma dec64_c0df400000000000: "decode64 0xc0df400000000000 = Finite True 8796093022208000 (- 38)"
  by (simp add: decode64_def fp_decode_def fp_sign_def fp_expo_def fp_frac_def fp_bias_def Let_def)

lemma fmul64_c08f400000000000_3ff0000000000000: "fmul64 0xc08f400000000000 0x3ff0000000000000 = 0xc08f400000000000"
  by (simp add: fmul64_def binop64_def is_nan64_def dec64_c08f400000000000 dec64_3ff0000000000000 rnd64_1f4000000000000000000000000_800000000000000000000000 dy_num_def dy_den_def fp_finish_def fp_pack_def fp_inf_mag_def)

lemma fmul64_c08f400000000000_4040000000000000: "fmul64 0xc08f400000000000 0x4040000000000000 = 0xc0df400000000000"
  by (simp add: fmul64_def binop64_def is_nan64_def dec64_c08f400000000000 dec64_4040000000000000 rnd64_1f4000000000000000000000000_40000000000000000000000 dy_num_def dy_den_def fp_finish_def fp_pack_def fp_inf_mag_def)


lemma is_zero64_nat: "is_zero (decode64 d) \<longleftrightarrow> unat d mod 9223372036854775808 = 0"
proof -
  define n where "n = unat d"
  define l where "l = n mod 9223372036854775808"
  have e: "n div 4503599627370496 mod 2048 = l div 4503599627370496"
    unfolding l_def using drop_bit_take_bit[of 52 63 n]
    by (simp add: take_bit_eq_mod drop_bit_eq_div)
  have f: "n mod 4503599627370496 = l mod 4503599627370496"
    unfolding l_def using mod_mod_cancel[of 4503599627370496 9223372036854775808 n] by simp
  have "is_zero (decode64 d)
      \<longleftrightarrow> n div 4503599627370496 mod 2048 = 0 \<and> n mod 4503599627370496 = 0"
    by (simp add: decode64_fields Let_def n_def)
  also have "\<dots> \<longleftrightarrow> l = 0"
    unfolding e f using div_mult_mod_eq[of l 4503599627370496] by auto
  finally show ?thesis by (simp add: n_def l_def)
qed

lemma is_zero64_cases: "is_zero (decode64 d) \<longleftrightarrow> d = 0 \<or> d = 0x8000000000000000"
proof
  assume "is_zero (decode64 d)"
  then have m: "unat d mod 9223372036854775808 = 0" by (simp only: is_zero64_nat)
  have lt: "unat d < 18446744073709551616" using unsigned_less[of d] by simp
  have "unat d = unat d div 9223372036854775808 * 9223372036854775808" using m 
    using div_mult_mod_eq[of "unat d" 9223372036854775808] by simp
  moreover have "unat d div 9223372036854775808 < 2" using lt by (simp add: div_less_iff_less_mult)
  ultimately have "unat d = 0 \<or> unat d = 9223372036854775808"
    by (cases "unat d div 9223372036854775808 = 0") auto
  then have "unat d = unat (0::u64) \<or> unat d = unat (0x8000000000000000::u64)" by simp
  then show "d = 0 \<or> d = 0x8000000000000000"
    by (simp only: word_eq_iff_unsigned[where 'a=nat, symmetric])
next
  assume "d = 0 \<or> d = 0x8000000000000000"
  then show "is_zero (decode64 d)"
    by (auto simp: dec64_0000000000000000 dec64_8000000000000000)
qed

lemma is_fin_not_nan64: "is_fin (decode64 a) \<Longrightarrow> \<not> is_nan64 a"
  by (auto simp: is_nan64_def)

lemma fle64_not_fgt64:
  assumes l: "decode64 l = Finite True ml xl" and h: "decode64 h = Finite False mh xh"
    and le: "fle64 d l"
  shows "\<not> fgt64 d h"
proof (cases "decode64 d")
  case Nan
  then show ?thesis using h by (simp add: fgt64_def)
next
  case (Infty s)
  then show ?thesis using le l h by (simp add: fgt64_def fle64_def)
next
  case (Finite t n y)
  have "valof64 d \<le> real_of_val (Finite True ml xl)"
    using le unfolding fle64_def l Finite valof64_def less_val_real eq_val_real by linarith
  moreover have "real_of_val (Finite True ml xl) \<le> 0"
    by (simp add: mult_nonneg_nonneg)
  moreover have "0 \<le> real_of_val (Finite False mh xh)"
    by (simp add: mult_nonneg_nonneg)
  ultimately have "\<not> real_of_val (Finite False mh xh) < valof64 d" by linarith
  then show ?thesis unfolding fgt64_def h Finite valof64_def less_val_real .
qed

lemma powf_thresholds:
  "fmul64 0x405fffffffd1d571 (POWF_SCALE cfg)
     = (if TOINT_INTRINSICS cfg then 0x40afffffffd1d571 else 0x405fffffffd1d571)"
  "fmul64 0xc062c00000000000 (POWF_SCALE cfg)
     = (if TOINT_INTRINSICS cfg then 0xc0b2c00000000000 else 0xc062c00000000000)"
  by (simp_all add: POWF_SCALE_cases fmul64_405fffffffd1d571_3ff0000000000000
      fmul64_405fffffffd1d571_4040000000000000 fmul64_c062c00000000000_3ff0000000000000
      fmul64_c062c00000000000_4040000000000000)

lemma powf_common_overflow:
  assumes "fgt64 (fmul64 (f32_to_f64 y) (log2_inline cfg ix))
             (fmul64 0x405fffffffd1d571 (POWF_SCALE cfg))"
  shows "powf_common cfg y sign_bias ix = math_oflowf sign_bias"
proof -
  have "powf_big cfg (fmul64 (f32_to_f64 y) (log2_inline cfg ix))"
    using assms powf_big_value by blast
  then show ?thesis using assms by (simp add: powf_common_def Let_def)
qed

lemma powf_common_underflow:
  assumes "fle64 (fmul64 (f32_to_f64 y) (log2_inline cfg ix))
             (fmul64 0xc062c00000000000 (POWF_SCALE cfg))"
  shows "powf_common cfg y sign_bias ix = math_uflowf sign_bias"
proof -
  have b: "powf_big cfg (fmul64 (f32_to_f64 y) (log2_inline cfg ix))"
    using assms powf_big_value by blast
  have "\<not> fgt64 (fmul64 (f32_to_f64 y) (log2_inline cfg ix))
             (fmul64 0x405fffffffd1d571 (POWF_SCALE cfg))"
  proof (cases "TOINT_INTRINSICS cfg")
    case True
    show ?thesis
      using assms True
      by (simp add: powf_thresholds
          fle64_not_fgt64[OF dec64_c0b2c00000000000 dec64_40afffffffd1d571])
  next
    case False
    show ?thesis
      using assms False
      by (simp add: powf_thresholds
          fle64_not_fgt64[OF dec64_c062c00000000000 dec64_405fffffffd1d571])
  qed
  then show ?thesis using b assms by (simp add: powf_common_def Let_def)
qed

lemma word_of_nat_pack_zero:
  "word_of_nat (fp_pack 11 52 s 0) = (if s then 0x8000000000000000 else (0::u64))"
  by (simp add: fp_pack_def)

lemma fmul64_fin_zero:
  assumes a: "is_fin (decode64 a)" and z: "is_zero (decode64 z)"
  shows "is_zero (decode64 (fmul64 a z))"
proof -
  obtain s m x where da: "decode64 a = Finite s m x" using a by (cases "decode64 a") simp_all
  obtain t y where dz: "decode64 z = Finite t 0 y" using z by (cases "decode64 z") simp_all
  have "fmul64 a z = word_of_nat (fp_pack 11 52 (s \<noteq> t) 0)"
    by (simp add: fmul64_def binop64_def is_nan64_def da dz fp_finish_def)
  then show ?thesis
    by (simp add: word_of_nat_pack_zero is_zero64_cases)
qed

lemma fmul64_zero_fin:
  assumes z: "is_zero (decode64 z)" and a: "is_fin (decode64 a)"
  shows "is_zero (decode64 (fmul64 z a))"
proof -
  obtain s m x where da: "decode64 a = Finite s m x" using a by (cases "decode64 a") simp_all
  obtain t y where dz: "decode64 z = Finite t 0 y" using z by (cases "decode64 z") simp_all
  have "fmul64 z a = word_of_nat (fp_pack 11 52 (t \<noteq> s) 0)"
    by (simp add: fmul64_def binop64_def is_nan64_def da dz fp_finish_def)
  then show ?thesis
    by (simp add: word_of_nat_pack_zero is_zero64_cases)
qed

lemma is_zero_is_fin: "is_zero v \<Longrightarrow> is_fin v"
  by (cases v) simp_all

lemma fadd64_zero_zero:
  assumes "is_zero (decode64 z)"
  shows "fadd64 z 0 = 0"
proof -
  obtain t y where dz: "decode64 z = Finite t 0 y"
    using assms by (cases "decode64 z") simp_all
  show ?thesis
    by (simp add: fadd64_def binop64_def is_nan64_def dz dec64_0000000000000000
        fp_finish_def fp_pack_def)
qed

lemma fadd64_zero_left:
  assumes z: "is_zero (decode64 z)"
    and b: "b = 0 \<or> is_fin (decode64 b) \<and> \<not> is_zero (decode64 b)"
  shows "fadd64 z b = b"
proof (cases "b = 0")
  case True
  then show ?thesis using z by (simp add: fadd64_zero_zero)
next
  case False
  then have "is_fin (decode64 b)" "\<not> is_zero (decode64 b)" using b by simp_all
  then show ?thesis using z by (simp add: fadd64_def is_fin_not_nan64)
qed

lemma fadd64_zero_fin:
  assumes z: "is_zero (decode64 z)" and b: "is_fin (decode64 b)"
  shows "is_fin (decode64 (fadd64 z b))"
proof (cases "is_zero (decode64 b)")
  case False
  then show ?thesis using z b by (simp add: fadd64_def is_fin_not_nan64)
next
  case True
  obtain t y where dz: "decode64 z = Finite t 0 y" using z by (cases "decode64 z") simp_all
  obtain u w where db: "decode64 b = Finite u 0 w" using True by (cases "decode64 b") simp_all
  have "fadd64 z b = word_of_nat (fp_pack 11 52 (t \<and> u) 0)"
    by (simp add: fadd64_def binop64_def is_nan64_def dz db fp_finish_def)
  then show ?thesis
    by (simp add: word_of_nat_pack_zero dec64_0000000000000000 dec64_8000000000000000)
qed

lemma f32_to_f64_one: "f32_to_f64 0x3f800000 = 0x3ff0000000000000"
  by (simp add: f32_to_f64_def fp_sign_def fp_expo_def fp_frac_def fp_pack_def)

lemma zero64: "is_zero (decode64 0)"
  by (simp add: dec64_0000000000000000)

lemma log2_inline_centre:
  assumes c: "log2_table_centred cfg"
    and i: "unat (drop_bit (23 - POWF_LOG2_TABLE_BITS cfg) (ix - OFF)
              mod push_bit (POWF_LOG2_TABLE_BITS cfg) 1) = 9"
    and iz: "ix - ((ix - OFF) AND 0xff800000) = 0x3f800000"
    and y0: "fadd64 0 (i32_to_f64 (sint (signed_drop_bit (23 - POWF_SCALE_BITS cfg)
              ((ix - OFF) AND 0xff800000)))) = y0"
    and good: "y0 = 0 \<or> is_fin (decode64 y0) \<and> \<not> is_zero (decode64 y0)"
  shows "log2_inline cfg ix = y0"
proof -
  define A where "A = powf_log2_poly cfg"
  have fin: "is_fin (decode64 (A ! 0))" "is_fin (decode64 (A ! 1))" "is_fin (decode64 (A ! 2))"
    "is_fin (decode64 (A ! 3))" "is_fin (decode64 (A ! 4))"
    using c by (simp_all add: log2_table_centred_def A_def)
  have tab: "invc (powf_log2_tab cfg ! 9) = 0x3ff0000000000000" "logc (powf_log2_tab cfg ! 9) = 0"
    using c by (simp_all add: log2_table_centred_def)
  define Y where "Y = fadd64 (fmul64 (A ! 0) 0) (A ! 1)"
  define P where "P = fadd64 (fmul64 (A ! 2) 0) (A ! 3)"
  have Y: "is_fin (decode64 Y)" unfolding Y_def
    by (intro fadd64_zero_fin fmul64_fin_zero fin zero64)
  have P: "is_fin (decode64 P)" unfolding P_def
    by (intro fadd64_zero_fin fmul64_fin_zero fin zero64)
  have q1: "fadd64 (fmul64 (A ! 4) 0) y0 = y0"
    by (intro fadd64_zero_left fmul64_fin_zero fin zero64 good)
  have q2: "fadd64 (fmul64 P 0) y0 = y0"
    by (intro fadd64_zero_left fmul64_fin_zero P zero64 good)
  have q3: "fadd64 (fmul64 Y 0) y0 = y0"
    by (intro fadd64_zero_left fmul64_fin_zero Y zero64 good)
  have z00: "fmul64 0 0 = 0"
    by (simp add: fmul64_def binop64_def is_nan64_def dec64_0000000000000000 fp_finish_def
        fp_pack_def)
  have "log2_inline cfg ix = fadd64 (fmul64 Y 0) (fadd64 (fmul64 P 0)
       (fadd64 (fmul64 (A ! 4) 0) y0))"
    unfolding log2_inline_def Let_def i iz tab f32_to_f64_one
      fmul64_3ff0000000000000_3ff0000000000000 fsub64_3ff0000000000000_3ff0000000000000
      z00 y0 Y_def P_def A_def ..
  then show ?thesis by (simp only: q1 q2 q3)
qed

section \<open>Overflow and underflow in the common path\<close>

lemma f32_to_f64_1000:
  "f32_to_f64 0x447a0000 = 0x408f400000000000" "f32_to_f64 0xc47a0000 = 0xc08f400000000000"
  by (simp_all add: f32_to_f64_def fp_sign_def fp_expo_def fp_frac_def fp_pack_def)

lemma log2_inline_two:
  assumes "log2_table_centred cfg"
  shows "log2_inline cfg 0x40000000 = POWF_SCALE cfg"
proof -
  have b: "POWF_LOG2_TABLE_BITS cfg = 4" using assms by (simp add: log2_table_centred_def)
  have k: "i32_to_f64 (sint (signed_drop_bit (23 - POWF_SCALE_BITS cfg)
      (((0x40000000::u32) - OFF) AND 0xff800000))) = POWF_SCALE cfg"
    by (simp add: POWF_SCALE_cases POWF_SCALE_BITS_def EXP2F_TABLE_BITS_def OFF_def
        i32_to_f64_1 i32_to_f64_32)
  have g: "is_fin (decode64 (POWF_SCALE cfg)) \<and> \<not> is_zero (decode64 (POWF_SCALE cfg))"
    by (simp add: POWF_SCALE_cases dec64_3ff0000000000000 dec64_4040000000000000)
  show ?thesis
  proof (rule log2_inline_centre[OF assms])
    show "unat (drop_bit (23 - POWF_LOG2_TABLE_BITS cfg) (0x40000000 - OFF)
        mod push_bit (POWF_LOG2_TABLE_BITS cfg) 1) = 9"
      by (simp add: b OFF_def)
    show "(0x40000000::u32) - ((0x40000000 - OFF) AND 0xff800000) = 0x3f800000"
      by (simp add: OFF_def)
    show "fadd64 0 (i32_to_f64 (sint (signed_drop_bit (23 - POWF_SCALE_BITS cfg)
        (((0x40000000::u32) - OFF) AND 0xff800000)))) = POWF_SCALE cfg"
      unfolding k using g by (intro fadd64_zero_left zero64) simp
    show "POWF_SCALE cfg = 0 \<or> is_fin (decode64 (POWF_SCALE cfg))
        \<and> \<not> is_zero (decode64 (POWF_SCALE cfg))"
      using g by simp
  qed
qed

lemma ylogx_two_1000:
  assumes "log2_table_centred cfg"
  shows "fmul64 (f32_to_f64 0x447a0000) (log2_inline cfg 0x40000000)
      = (if TOINT_INTRINSICS cfg then 0x40df400000000000 else 0x408f400000000000)"
    and "fmul64 (f32_to_f64 0xc47a0000) (log2_inline cfg 0x40000000)
      = (if TOINT_INTRINSICS cfg then 0xc0df400000000000 else 0xc08f400000000000)"
  by (simp_all add: log2_inline_two[OF assms] f32_to_f64_1000 POWF_SCALE_cases
      fmul64_408f400000000000_3ff0000000000000 fmul64_408f400000000000_4040000000000000
      fmul64_c08f400000000000_3ff0000000000000 fmul64_c08f400000000000_4040000000000000)

lemma compare_1000:
  "fgt64 0x408f400000000000 0x405fffffffd1d571"
  "fgt64 0x40df400000000000 0x40afffffffd1d571"
  "fle64 0xc08f400000000000 0xc062c00000000000"
  "fle64 0xc0df400000000000 0xc0b2c00000000000"
  by (simp_all add: fgt64_def fle64_def dec64_408f400000000000 dec64_405fffffffd1d571
      dec64_40df400000000000 dec64_40afffffffd1d571 dec64_c08f400000000000
      dec64_c062c00000000000 dec64_c0df400000000000 dec64_c0b2c00000000000)

lemma powf_two_1000:
  assumes "log2_table_centred cfg"
  shows "ARM__powf cfg 0x40000000 0x447a0000 = (0x7f800000, Err_overflow)"
    and "ARM__powf cfg 0x40000000 0xc47a0000 = (0, Err_underflow)"
proof -
  have a: "ARM__powf cfg 0x40000000 y = powf_common cfg y 0 0x40000000"
    if "\<not> zeroinfnan y" for y
    using that by (simp add: ARM__powf_def)
  have z: "\<not> zeroinfnan 0x447a0000" "\<not> zeroinfnan 0xc47a0000"
    by (simp_all add: zeroinfnan_def)
  have "fgt64 (fmul64 (f32_to_f64 0x447a0000) (log2_inline cfg 0x40000000))
      (fmul64 0x405fffffffd1d571 (POWF_SCALE cfg))"
    by (simp add: ylogx_two_1000[OF assms] powf_thresholds compare_1000)
  then have "powf_common cfg 0x447a0000 0 0x40000000 = math_oflowf 0"
    by (rule powf_common_overflow)
  then show "ARM__powf cfg 0x40000000 0x447a0000 = (0x7f800000, Err_overflow)"
    by (simp add: a z math_oflowf_def)
  have "fle64 (fmul64 (f32_to_f64 0xc47a0000) (log2_inline cfg 0x40000000))
      (fmul64 0xc062c00000000000 (POWF_SCALE cfg))"
    by (simp add: ylogx_two_1000[OF assms] powf_thresholds compare_1000)
  then have "powf_common cfg 0xc47a0000 0 0x40000000 = math_uflowf 0"
    by (rule powf_common_underflow)
  then show "ARM__powf cfg 0x40000000 0xc47a0000 = (0, Err_underflow)"
    by (simp add: a z math_uflowf_def)
qed

text \<open>
  C5. In the common path (\<open>powf_common\<close>, lines 208 to 224), whenever \<open>ylogx = y * log2_inline ix\<close>
  is above \<open>0x1.fffffffd1d571p+6 * POWF_SCALE\<close> the result is that of \<open>__math_oflowf\<close>, an
  infinity that is negative exactly when the sign bias is not 0, and whenever \<open>ylogx\<close> is at
  or below \<open>-150 * POWF_SCALE\<close> the result is that of \<open>__math_uflowf\<close>, a zero with the sign
  selected in the same way. With a log2 table centred at 1, \<open>ARM__powf 2.0f 1000.0f\<close> is
  \<open>+infinity\<close> and \<open>ARM__powf 2.0f (-1000.0f)\<close> is \<open>+0.0f\<close>, in both builds.
\<close>

theorem powf_overflow_underflow:
  "(fgt64 (fmul64 (f32_to_f64 y) (log2_inline cfg ix))
          (fmul64 0x405fffffffd1d571 (POWF_SCALE cfg))
      \<longrightarrow> powf_common cfg y sign_bias ix = math_oflowf sign_bias
        \<and> fst (math_oflowf sign_bias) = (if sign_bias \<noteq> 0 then 0xff800000 else 0x7f800000))
   \<and> (fle64 (fmul64 (f32_to_f64 y) (log2_inline cfg ix))
          (fmul64 0xc062c00000000000 (POWF_SCALE cfg))
      \<longrightarrow> powf_common cfg y sign_bias ix = math_uflowf sign_bias
        \<and> fst (math_uflowf sign_bias) = (if sign_bias \<noteq> 0 then 0x80000000 else 0))
   \<and> (log2_table_centred cfg
      \<longrightarrow> ARM__powf cfg 0x40000000 0x447a0000 = (0x7f800000, Err_overflow)
        \<and> ARM__powf cfg 0x40000000 0xc47a0000 = (0, Err_underflow))"
  using powf_common_overflow[of y cfg ix sign_bias] powf_common_underflow[of y cfg ix sign_bias]
    powf_two_1000[of cfg]
  by (simp add: math_oflowf_def math_uflowf_def)

lemma sample_log2_table: "log2_table_centred sample_config"
  by (simp add: log2_table_centred_def sample_config_def decode64_fields)

theorem powf_overflow_underflow_witness:
  "log2_table_centred sample_config
   \<and> fgt64 (fmul64 (f32_to_f64 0x447a0000) (log2_inline sample_config 0x40000000))
        (fmul64 0x405fffffffd1d571 (POWF_SCALE sample_config))
   \<and> fle64 (fmul64 (f32_to_f64 0xc47a0000) (log2_inline sample_config 0x40000000))
        (fmul64 0xc062c00000000000 (POWF_SCALE sample_config))
   \<and> powf_common sample_config 0x447a0000 SIGN_BIAS 0x40000000 = (0xff800000, Err_overflow)
   \<and> powf_common sample_config 0xc47a0000 0 0x40000000 = (0, Err_underflow)
   \<and> ARM__powf sample_config 0x40000000 0x447a0000 = (0x7f800000, Err_overflow)
   \<and> ARM__powf sample_config 0x40000000 0xc47a0000 = (0, Err_underflow)"
proof -
  have c: "log2_table_centred sample_config" by (rule sample_log2_table)
  have t: "\<not> TOINT_INTRINSICS sample_config" by (simp add: sample_config_def)
  have h1: "fgt64 (fmul64 (f32_to_f64 0x447a0000) (log2_inline sample_config 0x40000000))
        (fmul64 0x405fffffffd1d571 (POWF_SCALE sample_config))"
    using t by (simp add: ylogx_two_1000[OF c] powf_thresholds compare_1000)
  have h2: "fle64 (fmul64 (f32_to_f64 0xc47a0000) (log2_inline sample_config 0x40000000))
        (fmul64 0xc062c00000000000 (POWF_SCALE sample_config))"
    using t by (simp add: ylogx_two_1000[OF c] powf_thresholds compare_1000)
  have sb: "SIGN_BIAS \<noteq> 0" by (simp add: SIGN_BIAS_def EXP2F_TABLE_BITS_def)
  show ?thesis
    using powf_overflow_underflow[of "0x447a0000" sample_config "0x40000000" SIGN_BIAS]
      powf_overflow_underflow[of "0xc47a0000" sample_config "0x40000000" 0]
      c h1 h2 sb
    by (simp add: math_oflowf_def math_uflowf_def)
qed

section \<open>A base that is one\<close>

lemma dec64_42e8000000000000: "decode64 0x42e8000000000000 = Finite False 6755399441055744 (- 5)"
  by (simp add: decode64_def fp_decode_def fp_sign_def fp_expo_def fp_frac_def fp_bias_def Let_def)

lemma fsub64_42e8000000000000_42e8000000000000: "fsub64 0x42e8000000000000 0x42e8000000000000 = 0x0000000000000000"
  by (simp add: fsub64_def binop64_def is_nan64_def dec64_42e8000000000000 dec64_42e8000000000000 dy_num_def dy_den_def fp_finish_def fp_pack_def fp_inf_mag_def)

lemma rnd32_10000000000000_10000000000000: "fp_round_mag 8 23 4503599627370496 4503599627370496 = 1065353216"
  by (simp add: fp_round_mag_def ilog2_frac_def blen.simps Let_def rne_div_def fp_bias_def fp_inf_mag_def cong: let_weak_cong)

lemma f64_to_f32_3ff0000000000000: "f64_to_f32 0x3ff0000000000000 = 0x3f800000"
  by (simp add: f64_to_f32_def dec64_3ff0000000000000 rnd32_10000000000000_10000000000000 dy_num_def dy_den_def fp_finish_def fp_pack_def fp_inf_mag_def)


lemma blen_bound: "n < 2 ^ blen n"
proof (induction n rule: blen.induct)
  case (1 n)
  show ?case
  proof (cases "n = 0")
    case True
    then show ?thesis by (simp add: blen.simps)
  next
    case False
    then have "n div 2 < 2 ^ blen (n div 2)" by (rule 1)
    then have "n < 2 * 2 ^ blen (n div 2)" by linarith
    then show ?thesis using False by (subst blen.simps) simp
  qed
qed

lemma blen_le: "n < 2 ^ k \<Longrightarrow> blen n \<le> k"
proof (induction k arbitrary: n)
  case 0
  then show ?case by (simp add: blen.simps)
next
  case (Suc k)
  show ?case
  proof (cases "n = 0")
    case True
    then show ?thesis by (simp add: blen.simps)
  next
    case False
    have "n div 2 < 2 ^ k" using Suc.prems by simp
    then have "blen (n div 2) \<le> k" by (rule Suc.IH)
    then show ?thesis using False by (subst blen.simps) simp
  qed
qed

lemma is_fin64_nat:
  "is_fin (decode64 w) \<longleftrightarrow> unat w div 4503599627370496 mod 2048 \<noteq> 2047"
  by (simp add: decode64_fields Let_def)

lemma is_fin32_nat:
  "is_fin (decode32 w) \<longleftrightarrow> unat w div 8388608 mod 256 \<noteq> 255"
  by (simp add: decode32_fields Let_def)

lemma pack64_fin:
  assumes "mag < 2047 * 4503599627370496"
  shows "is_fin (decode64 (word_of_nat (fp_pack 11 52 s mag)))"
proof -
  define n where "n = fp_pack 11 52 s mag"
  have n: "n = (if s then 2048 else 0) * 4503599627370496 + mag"
    by (simp add: n_def fp_pack_def)
  have lt: "n < 2 ^ 64" using assms by (simp add: n)
  have u: "unat (word_of_nat n :: u64) = n"
    using lt by (simp add: unsigned_of_nat take_bit_nat_eq_self)
  have "n div 4503599627370496 = (if s then 2048 else 0) + mag div 4503599627370496"
    by (subst n) (simp only: div_mult_self3 zero_neq_numeral not_False_eq_True)
  moreover have m: "mag div 4503599627370496 < 2047"
    using assms by (simp add: div_less_iff_less_mult)
  ultimately have "n div 4503599627370496 mod 2048 = mag div 4503599627370496"
    by (cases s) simp_all
  then show ?thesis using m unfolding is_fin64_nat n_def[symmetric] u by simp
qed

lemma f32_to_f64_fin:
  assumes "is_fin (decode32 a)"
  shows "is_fin (decode64 (f32_to_f64 a))"
proof -
  define n where "n = unat a"
  define e where "e = fp_expo 8 23 n"
  define f where "f = fp_frac 23 n"
  have e: "e < 256" "e \<noteq> 255"
    using assms by (simp_all add: e_def fp_expo_def is_fin32_nat n_def)
  have f: "f < 8388608" by (simp add: f_def fp_frac_def)
  define mag where "mag =
    (if e = 0 then (if f = 0 then 0
        else (blen f + 873) * 2 ^ 52 + (f * 2 ^ (53 - blen f) - 2 ^ 52))
     else (e + 896) * 2 ^ 52 + f * 2 ^ 29)"
  have a: "f32_to_f64 a = word_of_nat (fp_pack 11 52 (fp_sign 8 23 n) mag)"
    using e by (simp add: f32_to_f64_def Let_def n_def e_def f_def mag_def)
  have "mag < 2047 * 4503599627370496"
  proof (cases "e = 0")
    case False
    have "f * 2 ^ 29 < 4503599627370496" using f by simp
    moreover have "(e + 896) * 4503599627370496 \<le> 1150 * 4503599627370496"
      using e by (intro mult_right_mono) simp_all
    ultimately show ?thesis using False by (simp add: mag_def)
  next
    case True
    show ?thesis
    proof (cases "f = 0")
      case True
      then show ?thesis using \<open>e = 0\<close> by (simp add: mag_def)
    next
      case False
      have b: "blen f \<le> 23" using f by (intro blen_le) simp
      have "f * 2 ^ (53 - blen f) < 2 ^ blen f * 2 ^ (53 - blen f)"
        using blen_bound[of f] by simp
      also have "\<dots> = 2 ^ 53" using b by (simp flip: power_add)
      finally have "f * 2 ^ (53 - blen f) - 2 ^ 52 < (2::nat) ^ 52" by simp
      moreover have "(blen f + 873) * 4503599627370496 \<le> 896 * 4503599627370496"
        using b by (intro mult_right_mono) simp_all
      ultimately show ?thesis using \<open>e = 0\<close> False by (simp add: mag_def)
    qed
  qed
  then show ?thesis unfolding a by (rule pack64_fin)
qed

lemma not_powf_big_zero:
  assumes "is_zero (decode64 d)"
  shows "\<not> powf_big cfg d"
  using assms by (auto simp: is_zero64_cases powf_big_threshold)

lemma fsub64_zero_zero:
  assumes "is_zero (decode64 a)" "is_zero (decode64 b)"
  shows "is_zero (decode64 (fsub64 a b))"
proof -
  obtain t y where da: "decode64 a = Finite t 0 y"
    using assms(1) by (cases "decode64 a") simp_all
  obtain u z where db: "decode64 b = Finite u 0 z"
    using assms(2) by (cases "decode64 b") simp_all
  have "fsub64 a b = word_of_nat (fp_pack 11 52 (t \<and> \<not> u) 0)"
    by (simp add: fsub64_def binop64_def is_nan64_def da db fp_finish_def)
  then show ?thesis by (simp add: word_of_nat_pack_zero is_zero64_cases)
qed

lemma one64: "is_fin (decode64 0x3ff0000000000000) \<and> \<not> is_zero (decode64 0x3ff0000000000000)"
  by (simp add: dec64_3ff0000000000000)

lemma exp2_poly_zero:
  assumes r: "is_zero (decode64 r)"
    and fin: "is_fin (decode64 (C ! 0))" "is_fin (decode64 (C ! 1))" "is_fin (decode64 (C ! 2))"
  shows "fadd64 (fmul64 (fadd64 (fmul64 (C ! 0) r) (C ! 1)) (fmul64 r r))
           (fadd64 (fmul64 (C ! 2) r) 0x3ff0000000000000) = 0x3ff0000000000000"
proof -
  define zz where "zz = fadd64 (fmul64 (C ! 0) r) (C ! 1)"
  have zz: "is_fin (decode64 zz)" unfolding zz_def
    by (intro fadd64_zero_fin fmul64_fin_zero fin r)
  have r2: "is_zero (decode64 (fmul64 r r))"
    by (intro fmul64_fin_zero is_zero_is_fin r)
  have y1: "fadd64 (fmul64 (C ! 2) r) 0x3ff0000000000000 = 0x3ff0000000000000"
    by (intro fadd64_zero_left fmul64_fin_zero fin r) (simp add: one64)
  have y2: "fadd64 (fmul64 zz (fmul64 r r)) 0x3ff0000000000000 = 0x3ff0000000000000"
    by (intro fadd64_zero_left fmul64_fin_zero zz r2) (simp add: one64)
  show ?thesis by (simp only: y1 y2 flip: zz_def)
qed

lemma exp2_inline_zero:
  assumes c: "exp2_table_centred cfg" and z: "is_zero (decode64 xd)"
  shows "exp2_inline cfg xd 0 = 0x3ff0000000000000"
proof (cases "TOINT_INTRINSICS cfg")
  case False
  define C where "C = exp2f_poly cfg"
  have tab: "exp2f_tab cfg ! 0 = 0x3ff0000000000000"
    and sh: "exp2f_shift_scaled cfg = 0x42e8000000000000"
    and fin: "is_fin (decode64 (C ! 0))" "is_fin (decode64 (C ! 1))" "is_fin (decode64 (C ! 2))"
    using c False by (simp_all add: exp2_table_centred_def C_def)
  have kd0: "fadd64 xd 0x42e8000000000000 = 0x42e8000000000000"
    by (intro fadd64_zero_left z) (simp add: dec64_42e8000000000000)
  have scale: "exp2_scale cfg xd 0 = 0x3ff0000000000000"
    using False by (simp add: exp2_scale_def Let_def sh kd0 EXP2F_TABLE_BITS_def tab)
  define r where "r = fsub64 xd 0"
  have r: "is_zero (decode64 r)" unfolding r_def using z zero64 by (intro fsub64_zero_zero) simp_all
  have "exp2_poly cfg xd = fadd64 (fmul64 (fadd64 (fmul64 (C ! 0) r) (C ! 1)) (fmul64 r r))
      (fadd64 (fmul64 (C ! 2) r) 0x3ff0000000000000)"
    using False by (simp add: exp2_poly_def Let_def sh kd0
        fsub64_42e8000000000000_42e8000000000000 r_def C_def)
  then have poly: "exp2_poly cfg xd = 0x3ff0000000000000"
    by (simp only: exp2_poly_zero[OF r fin])
  show ?thesis
    by (simp only: exp2_inline_factors poly scale fmul64_3ff0000000000000_3ff0000000000000)
next
  case True
  define C where "C = exp2f_poly_scaled cfg"
  have tab: "exp2f_tab cfg ! 0 = 0x3ff0000000000000"
    and fin: "is_fin (decode64 (C ! 0))" "is_fin (decode64 (C ! 1))" "is_fin (decode64 (C ! 2))"
    using c True by (simp_all add: exp2_table_centred_def C_def)
  have x: "xd = 0 \<or> xd = 0x8000000000000000" using z by (simp add: is_zero64_cases)
  have kd: "is_zero (decode64 (roundtoint cfg xd))"
    using c True x by (auto simp: exp2_table_centred_def)
  have ki: "converttoint cfg xd = 0"
    using c True x by (auto simp: exp2_table_centred_def)
  have scale: "exp2_scale cfg xd 0 = 0x3ff0000000000000"
    using True by (simp add: exp2_scale_def Let_def ki EXP2F_TABLE_BITS_def tab)
  define r where "r = fsub64 xd (roundtoint cfg xd)"
  have r: "is_zero (decode64 r)" unfolding r_def using z kd by (rule fsub64_zero_zero)
  have "exp2_poly cfg xd = fadd64 (fmul64 (fadd64 (fmul64 (C ! 0) r) (C ! 1)) (fmul64 r r))
      (fadd64 (fmul64 (C ! 2) r) 0x3ff0000000000000)"
    using True by (simp add: exp2_poly_def Let_def r_def C_def)
  then have poly: "exp2_poly cfg xd = 0x3ff0000000000000"
    by (simp only: exp2_poly_zero[OF r fin])
  show ?thesis
    by (simp only: exp2_inline_factors poly scale fmul64_3ff0000000000000_3ff0000000000000)
qed

lemma i32_to_f64_0: "i32_to_f64 0 = 0"
  by (simp add: i32_to_f64_def fp_finish_def fp_pack_def)

lemma log2_inline_one:
  assumes "log2_table_centred cfg"
  shows "log2_inline cfg 0x3f800000 = 0"
proof (rule log2_inline_centre[OF assms])
  have b: "POWF_LOG2_TABLE_BITS cfg = 4" using assms by (simp add: log2_table_centred_def)
  show "unat (drop_bit (23 - POWF_LOG2_TABLE_BITS cfg) (0x3f800000 - OFF)
      mod push_bit (POWF_LOG2_TABLE_BITS cfg) 1) = 9"
    by (simp add: b OFF_def)
  show "(0x3f800000::u32) - ((0x3f800000 - OFF) AND 0xff800000) = 0x3f800000"
    by (simp add: OFF_def)
  show "fadd64 0 (i32_to_f64 (sint (signed_drop_bit (23 - POWF_SCALE_BITS cfg)
      (((0x3f800000::u32) - OFF) AND 0xff800000)))) = 0"
    by (simp add: OFF_def i32_to_f64_0 fadd64_zero_zero zero64)
  show "(0::u64) = 0 \<or> is_fin (decode64 0) \<and> \<not> is_zero (decode64 0)" by simp
qed

lemma powf_one_common:
  assumes l: "log2_table_centred cfg" and e: "exp2_table_centred cfg"
    and y: "\<not> zeroinfnan y"
  shows "ARM__powf cfg 0x3f800000 y = (0x3f800000, No_error)"
proof -
  have fy: "is_fin (decode32 y)" using y by (simp add: zeroinfnan_decode)
  have z: "is_zero (decode64 (fmul64 (f32_to_f64 y) 0))"
    by (intro fmul64_fin_zero f32_to_f64_fin fy zero64)
  have "ARM__powf cfg 0x3f800000 y = powf_common cfg y 0 0x3f800000"
    using y by (simp add: ARM__powf_def)
  also have "\<dots> = (f64_to_f32 (exp2_inline cfg (fmul64 (f32_to_f64 y) 0) 0), No_error)"
    using not_powf_big_zero[OF z, of cfg]
    by (simp add: powf_common_def Let_def log2_inline_one[OF l])
  also have "\<dots> = (0x3f800000, No_error)"
    by (simp only: exp2_inline_zero[OF e z] f64_to_f32_3ff0000000000000)
  finally show ?thesis .
qed

lemma fadd32_nan_right:
  assumes "\<not> is_nan32 a" "is_nan32 b"
  shows "fadd32 a b = quiet32 b"
  using assms by (auto simp: fadd32_def binop32_def is_nan32_def)

lemma signaling_zeroinfnan: "issignalingf_inline y \<Longrightarrow> zeroinfnan y"
  by (simp add: issignalingf_inline_def zeroinfnan_decode is_nan32_def)

lemma powf_one_special:
  assumes "zeroinfnan y"
  shows "ARM__powf cfg 0x3f800000 y
      = (if issignalingf_inline y then fadd32 0x3f800000 y else 0x3f800000, No_error)"
proof -
  have o: "\<not> issignalingf_inline 0x3f800000"
    by (simp add: issignalingf_inline_def is_nan32_def decode32_fields)
  have n: "\<not> issignalingf_inline y" if "2 * y = 0"
  proof -
    have "unat y mod 2147483648 = 0" using that unat_dbl32[of y] by simp
    then have "is_zero (decode32 y)" by (simp only: is_zero32_nat)
    then show ?thesis by (auto simp: issignalingf_inline_def is_nan32_def)
  qed
  have "ARM__powf cfg 0x3f800000 y = powf_y_special 0x3f800000 y"
    using assms by (simp add: ARM__powf_def)
  then show ?thesis using o n by (simp add: powf_y_special_def)
qed

text \<open>
  C2. \<open>ARM__powf 1.0f y\<close> is exactly \<open>1.0f\<close> (\<open>0x3f800000\<close>) for every \<open>y\<close> that is not a signaling
  NaN. When \<open>y\<close> is a zero, an infinity or a NaN the result comes from the early returns of
  lines 163 to 166, and for a signaling NaN it is \<open>x + y\<close>, which is \<open>y\<close> with its quiet bit
  set. Every other \<open>y\<close> is finite and nonzero and goes through the common path:
  \<open>log2_inline\<close> returns \<open>+0\<close>, the product \<open>y * logx\<close> is a zero, the fast test fails, and
  \<open>exp2_inline\<close> returns \<open>1.0\<close>; this holds in both builds, for tables as described by
  \<open>log2_table_centred\<close> and \<open>exp2_table_centred\<close>.
\<close>

theorem powf_one_base:
  "(zeroinfnan y \<longrightarrow>
      ARM__powf cfg 0x3f800000 y
        = (if issignalingf_inline y then fadd32 0x3f800000 y else 0x3f800000, No_error))
   \<and> (issignalingf_inline y \<longrightarrow> zeroinfnan y \<and> fadd32 0x3f800000 y = quiet32 y)
   \<and> (\<not> zeroinfnan y \<and> log2_table_centred cfg \<and> exp2_table_centred cfg \<longrightarrow>
      ARM__powf cfg 0x3f800000 y = (0x3f800000, No_error))"
proof -
  have o: "\<not> is_nan32 0x3f800000" by (simp add: is_nan32_def decode32_fields)
  have "fadd32 0x3f800000 y = quiet32 y" if "issignalingf_inline y"
    using that o by (intro fadd32_nan_right) (simp_all add: issignalingf_inline_def)
  then show ?thesis
    using powf_one_special[of y cfg] powf_one_common[of cfg y] signaling_zeroinfnan[of y]
    by blast
qed

lemma sample_exp2_table: "exp2_table_centred sample_config"
  by (simp add: exp2_table_centred_def sample_config_def decode64_fields)

lemma sample_toint_table:
  "log2_table_centred (sample_config\<lparr>TOINT_INTRINSICS := True\<rparr>)
   \<and> exp2_table_centred (sample_config\<lparr>TOINT_INTRINSICS := True\<rparr>)"
  by (simp add: log2_table_centred_def exp2_table_centred_def sample_config_def decode64_fields)

theorem powf_one_base_witness:
  "zeroinfnan 0x7fa00000 \<and> issignalingf_inline 0x7fa00000
   \<and> ARM__powf sample_config 0x3f800000 0x7fa00000 = (0x7fe00000, No_error)
   \<and> zeroinfnan 0x7fc00000 \<and> \<not> issignalingf_inline 0x7fc00000
   \<and> ARM__powf sample_config 0x3f800000 0x7fc00000 = (0x3f800000, No_error)
   \<and> \<not> zeroinfnan 0x40400000
   \<and> log2_table_centred sample_config \<and> exp2_table_centred sample_config
   \<and> ARM__powf sample_config 0x3f800000 0x40400000 = (0x3f800000, No_error)
   \<and> log2_table_centred (sample_config\<lparr>TOINT_INTRINSICS := True\<rparr>)
   \<and> exp2_table_centred (sample_config\<lparr>TOINT_INTRINSICS := True\<rparr>)
   \<and> ARM__powf (sample_config\<lparr>TOINT_INTRINSICS := True\<rparr>) 0x3f800000 0x40400000
       = (0x3f800000, No_error)"
proof -
  have s: "issignalingf_inline 0x7fa00000"
    by (simp add: issignalingf_inline_def is_nan32_def decode32_fields)
  have q: "\<not> issignalingf_inline 0x7fc00000"
    by (simp add: issignalingf_inline_def is_nan32_def decode32_fields)
  have z: "zeroinfnan 0x7fc00000" "\<not> zeroinfnan 0x40400000"
    by (simp_all add: zeroinfnan_def)
  have n: "quiet32 0x7fa00000 = 0x7fe00000" by (simp add: quiet32_def)
  show ?thesis
    using powf_one_base[of "0x7fa00000" sample_config]
      powf_one_base[of "0x7fc00000" sample_config]
      powf_one_base[of "0x40400000" sample_config]
      powf_one_base[of "0x40400000" "sample_config\<lparr>TOINT_INTRINSICS := True\<rparr>"]
      s q z n sample_log2_table sample_exp2_table sample_toint_table
    by simp
qed

end
